theory Spec2Isabelle
  imports Complex_Main "HOL-Library.Sublist"
begin

section \<open>Firehose collector: bounded event buffer, batch worker, shutdown drain\<close>

text \<open>
  A shallow embedding of \<^verbatim>\<open>src/firehose/firehose_collector.py\<close>. Every section that
  runs under \<^verbatim>\<open>async with self.lock\<close> is one function on the buffer state. Python
  integers are \<^typ>\<open>int\<close>, the clock readings of \<^verbatim>\<open>time.time()\<close> are \<^typ>\<open>real\<close>,
  exceptions are values of the type \<open>exn\<close>, and \<^verbatim>\<open>print\<close> is a report that cannot fail.
\<close>

subsection \<open>Configuration\<close>

definition BATCH_SIZE :: int where
  "BATCH_SIZE = 100"

definition BATCH_TIMEOUT :: real where
  "BATCH_TIMEOUT = 1"

definition MAX_QUEUE_SIZE :: int where
  "MAX_QUEUE_SIZE = 100000"

definition WORKER_SLEEP :: real where
  "WORKER_SLEEP = 1 / 10"

subsection \<open>Values, events and exceptions\<close>

text \<open>
  An event is a Python dictionary (\<^verbatim>\<open>Dict[str, Any]\<close>); \<open>PObject\<close> stands for a value
  that \<^verbatim>\<open>json.dumps\<close> cannot serialise. The exceptions are the instances of Python's
  \<^verbatim>\<open>Exception\<close> class, which is what the handlers \<^verbatim>\<open>except Exception\<close> of the source
  match.
\<close>

datatype pyval =
    PNone
  | PBool bool
  | PInt int
  | PStr string
  | PList "pyval list"
  | PDict "(string \<times> pyval) list"
  | PObject string

type_synonym event = "(string \<times> pyval) list"

datatype exn =
    ValueError string
  | KeyError string
  | TypeError string
  | DatabaseError string
  | RuntimeError string

subsection \<open>collections.deque with a maximum length\<close>

text \<open>
  \<^verbatim>\<open>deque(maxlen=n)\<close> raises \<^verbatim>\<open>ValueError\<close> for a negative \<open>n\<close>. Appending to a deque
  that is at its maximum length discards the element at the left end.
\<close>

record deque =
  items :: "event list"
  maxlen :: nat

definition deque_new :: "int \<Rightarrow> exn + deque" where
  "deque_new n =
     (if n < 0 then Inl (ValueError ''maxlen must be non-negative'')
      else Inr \<lparr>items = [], maxlen = nat n\<rparr>)"

definition deque_append :: "event \<Rightarrow> deque \<Rightarrow> deque" where
  "deque_append x d =
     (let xs = items d @ [x]
      in d\<lparr>items := (if maxlen d < length xs then tl xs else xs)\<rparr>)"

definition deque_len :: "deque \<Rightarrow> int" where
  "deque_len d = int (length (items d))"

text \<open>\<^verbatim>\<open>popleft\<close> raises \<^verbatim>\<open>IndexError\<close> on an empty deque; the only caller tests first.\<close>

definition deque_popleft :: "deque \<Rightarrow> (event \<times> deque) option" where
  "deque_popleft d =
     (case items d of [] \<Rightarrow> None | x # xs \<Rightarrow> Some (x, d\<lparr>items := xs\<rparr>))"

subsection \<open>EventBuffer\<close>

record EventBuffer =
  queue :: deque
  total_received :: int
  total_processed :: int
  total_dropped :: int

definition EventBuffer_init :: "int \<Rightarrow> exn + EventBuffer" where
  "EventBuffer_init max_size =
     (case deque_new max_size of
        Inl e \<Rightarrow> Inl e
      | Inr q \<Rightarrow> Inr \<lparr>queue = q, total_received = 0, total_processed = 0, total_dropped = 0\<rparr>)"

definition add_event :: "event \<Rightarrow> EventBuffer \<Rightarrow> bool \<times> EventBuffer" where
  "add_event ev b =
     (if MAX_QUEUE_SIZE \<le> deque_len (queue b)
      then (False, b\<lparr>total_dropped := total_dropped b + 1\<rparr>)
      else (True, b\<lparr>queue := deque_append ev (queue b),
                     total_received := total_received b + 1\<rparr>))"

text \<open>The loop of \<^verbatim>\<open>get_batch\<close>: one round per element of the range.\<close>

fun get_batch_loop :: "nat \<Rightarrow> deque \<Rightarrow> event list \<Rightarrow> event list \<times> deque" where
  "get_batch_loop 0 q batch = (batch, q)"
| "get_batch_loop (Suc k) q batch =
     (case deque_popleft q of
        None \<Rightarrow> get_batch_loop k q batch
      | Some (x, q') \<Rightarrow> get_batch_loop k q' (batch @ [x]))"

definition get_batch :: "int \<Rightarrow> EventBuffer \<Rightarrow> event list \<times> EventBuffer" where
  "get_batch batch_size b =
     (let (batch, q') = get_batch_loop (nat (min batch_size (deque_len (queue b)))) (queue b) []
      in (batch, b\<lparr>queue := q'\<rparr>))"

record stats =
  st_queue_size :: int
  st_total_received :: int
  st_total_processed :: int
  st_total_dropped :: int

definition get_stats :: "EventBuffer \<Rightarrow> stats" where
  "get_stats b =
     \<lparr>st_queue_size = deque_len (queue b),
      st_total_received = total_received b,
      st_total_processed = total_processed b,
      st_total_dropped = total_dropped b\<rparr>"

text \<open>
  The statement \<^verbatim>\<open>self.buffer.total_processed += inserted\<close> that the worker runs under
  the buffer's lock.
\<close>

definition mark_processed :: "int \<Rightarrow> EventBuffer \<Rightarrow> EventBuffer" where
  "mark_processed inserted b = b\<lparr>total_processed := total_processed b + inserted\<rparr>"

subsection \<open>Sequences of buffer operations\<close>

text \<open>
  The buffer is shared by the request handlers and the worker; each of their critical
  sections is one operation. Between \<^verbatim>\<open>get_batch\<close> and the accounting of the write the
  worker holds the extracted batch, here the second component of the state. A write that
  returns 0 and the drain at shutdown let go of the batch without accounting for it.
\<close>

datatype buffer_op =
    Admit event
  | Extract int
  | Written
  | WriteFailed

fun apply_op :: "buffer_op \<Rightarrow> EventBuffer \<times> event list \<Rightarrow> EventBuffer \<times> event list" where
  "apply_op (Admit ev) (b, held) = (snd (add_event ev b), held)"
| "apply_op (Extract n) (b, held) = (let (batch, b') = get_batch n b in (b', batch))"
| "apply_op Written (b, held) =
     (if held = [] then (b, []) else (mark_processed (int (length held)) b, []))"
| "apply_op WriteFailed (b, held) = (b, [])"

definition run_ops :: "buffer_op list \<Rightarrow> EventBuffer \<times> event list \<Rightarrow> EventBuffer \<times> event list" where
  "run_ops ops st = fold apply_op ops st"

text \<open>
  Bookkeeping over a run, kept beside the code's own counters: the number of events that
  were submitted to \<^verbatim>\<open>add_event\<close>, and the number of events that the worker let go of
  without accounting for them. The worker lets go of the batch in its hands when the
  write has failed, and when it extracts again before the write was accounted for.
\<close>

fun is_admit :: "buffer_op \<Rightarrow> bool" where
  "is_admit (Admit ev) = True"
| "is_admit op = False"

definition submitted :: "buffer_op list \<Rightarrow> int" where
  "submitted ops = int (length (filter is_admit ops))"

fun let_go :: "buffer_op \<Rightarrow> EventBuffer \<times> event list \<Rightarrow> int" where
  "let_go (Admit ev) (b, held) = 0"
| "let_go (Extract n) (b, held) = int (length held)"
| "let_go Written (b, held) = 0"
| "let_go WriteFailed (b, held) = int (length held)"

fun unaccounted :: "buffer_op list \<Rightarrow> EventBuffer \<times> event list \<Rightarrow> int" where
  "unaccounted [] st = 0"
| "unaccounted (op # ops) st = let_go op st + unaccounted ops (apply_op op st)"

text \<open>A run of \<^verbatim>\<open>add_event\<close> calls, with the value each call returned.\<close>

fun admit_all :: "event list \<Rightarrow> EventBuffer \<Rightarrow> bool list \<times> EventBuffer" where
  "admit_all [] b = ([], b)"
| "admit_all (ev # evs) b =
     (let (ok, b1) = add_event ev b; (oks, b2) = admit_all evs b1 in (ok # oks, b2))"

definition accepted :: "event list \<Rightarrow> bool list \<Rightarrow> event list" where
  "accepted evs oks = map fst (filter snd (zip evs oks))"

subsection \<open>EventDatabase\<close>

text \<open>
  The connection is outside the repository: whether \<^verbatim>\<open>executemany\<close> and \<^verbatim>\<open>commit\<close> raise
  is an input of each call. A row keeps the metadata value whose JSON text the source
  stores.
\<close>

fun serialisable :: "pyval \<Rightarrow> bool" where
  "serialisable (PObject c) = False"
| "serialisable (PList vs) = list_all serialisable vs"
| "serialisable (PDict kvs) = list_all serialisable (map snd kvs)"
| "serialisable v = True"

definition json_dumps :: "pyval \<Rightarrow> exn + pyval" where
  "json_dumps v =
     (if serialisable v then Inr v
      else Inl (TypeError ''Object is not JSON serializable''))"

definition subscript :: "event \<Rightarrow> string \<Rightarrow> exn + pyval" where
  "subscript ev k = (case map_of ev k of None \<Rightarrow> Inl (KeyError k) | Some v \<Rightarrow> Inr v)"

type_synonym row = "pyval \<times> pyval \<times> pyval"

definition row_of :: "event \<Rightarrow> exn + row" where
  "row_of ev =
     (case subscript ev ''user_id'' of Inl e \<Rightarrow> Inl e | Inr u \<Rightarrow>
     (case subscript ev ''timestamp'' of Inl e \<Rightarrow> Inl e | Inr t \<Rightarrow>
     (case subscript ev ''metadata'' of Inl e \<Rightarrow> Inl e | Inr m \<Rightarrow>
     (case json_dumps m of Inl e \<Rightarrow> Inl e | Inr j \<Rightarrow> Inr (u, t, j)))))"

fun rows_of :: "event list \<Rightarrow> exn + row list" where
  "rows_of [] = Inr []"
| "rows_of (ev # evs) =
     (case row_of ev of Inl e \<Rightarrow> Inl e | Inr r \<Rightarrow>
     (case rows_of evs of Inl e \<Rightarrow> Inl e | Inr rs \<Rightarrow> Inr (r # rs)))"

record EventDatabase =
  pending :: "row list"
  committed :: "row list"

record db_replies =
  executemany_raises :: "exn option"
  commit_raises :: "exn option"

definition executemany :: "db_replies \<Rightarrow> row list \<Rightarrow> EventDatabase \<Rightarrow> (exn + unit) \<times> EventDatabase" where
  "executemany rp rows db =
     (case executemany_raises rp of
        Some e \<Rightarrow> (Inl e, db)
      | None \<Rightarrow> (Inr (), db\<lparr>pending := pending db @ rows\<rparr>))"

definition commit :: "db_replies \<Rightarrow> EventDatabase \<Rightarrow> (exn + unit) \<times> EventDatabase" where
  "commit rp db =
     (case commit_raises rp of
        Some e \<Rightarrow> (Inl e, db)
      | None \<Rightarrow> (Inr (), db\<lparr>pending := [], committed := committed db @ pending db\<rparr>))"

text \<open>The body of the \<^verbatim>\<open>try\<close> block of \<^verbatim>\<open>insert_batch\<close>.\<close>

definition insert_batch_try :: "db_replies \<Rightarrow> event list \<Rightarrow> EventDatabase \<Rightarrow> (exn + int) \<times> EventDatabase" where
  "insert_batch_try rp events db =
     (case rows_of events of
        Inl e \<Rightarrow> (Inl e, db)
      | Inr vals \<Rightarrow>
          (case executemany rp vals db of
             (Inl e, db1) \<Rightarrow> (Inl e, db1)
           | (Inr u, db1) \<Rightarrow>
               (case commit rp db1 of
                  (Inl e, db2) \<Rightarrow> (Inl e, db2)
                | (Inr u', db2) \<Rightarrow> (Inr (int (length events)), db2))))"

text \<open>
  \<^verbatim>\<open>insert_batch\<close>: the empty list returns at once, and the handler
  \<^verbatim>\<open>except Exception\<close> turns whatever the \<^verbatim>\<open>try\<close> block raised into the result 0.
\<close>

definition insert_batch :: "db_replies \<Rightarrow> event list \<Rightarrow> EventDatabase \<Rightarrow> (exn + int) \<times> EventDatabase" where
  "insert_batch rp events db =
     (if events = [] then (Inr 0, db)
      else (case insert_batch_try rp events db of
              (Inl e, db') \<Rightarrow> (Inr 0, db')
            | (Inr n, db') \<Rightarrow> (Inr n, db')))"

text \<open>
  The transaction of \<^verbatim>\<open>insert_batch\<close> succeeds when every event yields a row and
  neither \<^verbatim>\<open>executemany\<close> nor \<^verbatim>\<open>commit\<close> raises.
\<close>

definition write_succeeds :: "db_replies \<Rightarrow> event list \<Rightarrow> bool" where
  "write_succeeds rp events =
     ((case rows_of events of Inl e \<Rightarrow> False | Inr vals \<Rightarrow> True)
      \<and> executemany_raises rp = None \<and> commit_raises rp = None)"

subsection \<open>BatchWorker\<close>

record BatchWorker =
  running :: bool
  last_batch_time :: real

record system =
  buffer :: EventBuffer
  database :: EventDatabase
  worker :: BatchWorker

text \<open>What an operation does to its collaborators, in order.\<close>

datatype action =
    GetBatchCall int
  | InsertBatchCall "event list"
  | ReportProcessed int int
  | ReportBatchFailed int
  | ReportWorkerError exn
  | SleepCall real
  | CloseCall

text \<open>
  One round of the polling loop reads the clock, talks to the database and may be hit by
  an exception at one of its calls: before the batch is extracted, between the
  extraction and the write, after the accounting, or in the sleep that ends the round.
  \<open>stop_called\<close> says that \<^verbatim>\<open>stop()\<close> ran while the round was suspended.
\<close>

datatype fault_point = AtStats | AtWrite | AtReport | AtSleep

record poll_env =
  now :: real
  replies :: db_replies
  fault :: "(fault_point \<times> exn) option"
  stop_called :: bool

definition raises_at :: "fault_point \<Rightarrow> poll_env \<Rightarrow> exn option" where
  "raises_at p env =
     (case fault env of
        None \<Rightarrow> None
      | Some (p', e) \<Rightarrow> if p' = p then Some e else None)"


definition should_process :: "int \<Rightarrow> real \<Rightarrow> bool" where
  "should_process queue_size time_since_last_batch =
     (BATCH_SIZE \<le> queue_size \<or> (0 < queue_size \<and> BATCH_TIMEOUT \<le> time_since_last_batch))"

text \<open>The block under \<^verbatim>\<open>if should_process:\<close>.\<close>

definition flush :: "poll_env \<Rightarrow> int \<Rightarrow> real \<Rightarrow> system \<Rightarrow> (exn + unit) \<times> system \<times> action list" where
  "flush env queue_size current_time s =
     (let (batch, b1) = get_batch BATCH_SIZE (buffer s);
          s1 = s\<lparr>buffer := b1\<rparr>;
          tr1 = [GetBatchCall BATCH_SIZE]
      in if batch = [] then (Inr (), s1, tr1)
         else (case raises_at AtWrite env of
                 Some e \<Rightarrow> (Inl e, s1, tr1)
               | None \<Rightarrow>
                   (case insert_batch (replies env) batch (database s1) of
                      (Inl e, db1) \<Rightarrow> (Inl e, s1\<lparr>database := db1\<rparr>, tr1 @ [InsertBatchCall batch])
                    | (Inr inserted, db1) \<Rightarrow>
                        (let s2 = s1\<lparr>database := db1\<rparr>;
                             tr2 = tr1 @ [InsertBatchCall batch];
                             s3 = (if 0 < inserted
                                   then s2\<lparr>buffer := mark_processed inserted (buffer s2)\<rparr>
                                   else s2)
                         in (case raises_at AtReport env of
                               Some e \<Rightarrow> (Inl e, s3, tr2)
                             | None \<Rightarrow>
                                 (Inr (),
                                  s3\<lparr>worker := (worker s3)\<lparr>last_batch_time := current_time\<rparr>\<rparr>,
                                  tr2 @ [if 0 < inserted then ReportProcessed inserted queue_size
                                         else ReportBatchFailed queue_size]))))))"

definition process_batch :: "poll_env \<Rightarrow> system \<Rightarrow> (exn + unit) \<times> system \<times> action list" where
  "process_batch env s =
     (case raises_at AtStats env of
        Some e \<Rightarrow> (Inl e, s, [])
      | None \<Rightarrow>
          (let st = get_stats (buffer s);
               queue_size = st_queue_size st;
               current_time = now env;
               time_since_last_batch = current_time - last_batch_time (worker s)
           in if should_process queue_size time_since_last_batch
              then flush env queue_size current_time s
              else (Inr (), s, [])))"

definition stop :: "system \<Rightarrow> system" where
  "stop s = s\<lparr>worker := (worker s)\<lparr>running := False\<rparr>\<rparr>"

text \<open>The \<^verbatim>\<open>try\<close> block of the loop of \<^verbatim>\<open>start\<close>, then the whole round with its handler.\<close>

definition round_body :: "poll_env \<Rightarrow> system \<Rightarrow> (exn + unit) \<times> system \<times> action list" where
  "round_body env s =
     (case process_batch env s of
        (Inl e, s1, tr) \<Rightarrow> (Inl e, s1, tr)
      | (Inr u, s1, tr) \<Rightarrow>
          (case raises_at AtSleep env of
             Some e \<Rightarrow> (Inl e, s1, tr)
           | None \<Rightarrow> (Inr (), s1, tr @ [SleepCall WORKER_SLEEP])))"

definition worker_round :: "poll_env \<Rightarrow> system \<Rightarrow> system \<times> action list" where
  "worker_round env s =
     (let (s1, tr1) =
            (case round_body env s of
               (Inl e, s1, tr) \<Rightarrow> (s1, tr @ [ReportWorkerError e, SleepCall 1])
             | (Inr u, s1, tr) \<Rightarrow> (s1, tr))
      in (if stop_called env then stop s1 else s1, tr1))"

text \<open>
  The loop \<^verbatim>\<open>while self.running\<close>. It runs for as long as nobody calls \<^verbatim>\<open>stop()\<close>, so
  the model runs it on the inputs of finitely many rounds: the result is the state when
  the loop has left, or the state after the last of these rounds, and the flag says
  which.
\<close>

fun start_loop :: "poll_env list \<Rightarrow> system \<Rightarrow> bool \<times> system \<times> action list" where
  "start_loop envs s =
     (if \<not> running (worker s) then (True, s, [])
      else (case envs of
              [] \<Rightarrow> (False, s, [])
            | env # rest \<Rightarrow>
                (let (s1, tr1) = worker_round env s;
                     (left, s2, tr2) = start_loop rest s1
                 in (left, s2, tr1 @ tr2))))"


subsection \<open>Application: construction, request handler, shutdown\<close>





subsection \<open>Invariants used in the proofs\<close>

text \<open>
  What the deque guarantees about its own length, for a buffer that was built with the
  maximum length \<open>c\<close>.
\<close>

definition buffer_inv :: "int \<Rightarrow> EventBuffer \<Rightarrow> bool" where
  "buffer_inv c b =
     (length (items (queue b)) \<le> maxlen (queue b) \<and> int (maxlen (queue b)) = c)"

text \<open>
  The received events that are neither marked as processed, nor queued, nor in the
  worker's hands.
\<close>

definition balance :: "EventBuffer \<times> event list \<Rightarrow> int" where
  "balance st =
     total_received (fst st) - total_processed (fst st) - deque_len (queue (fst st))
       - int (length (snd st))"

section \<open>Properties of the buffer\<close>

lemma get_batch_loop_take_drop:
  "get_batch_loop k q batch =
     (batch @ take k (items q), q\<lparr>items := drop k (items q)\<rparr>)"
proof (induction k arbitrary: q batch)
  case 0
  show ?case by simp
next
  case (Suc k)
  show ?case
  proof (cases "items q")
    case Nil
    then show ?thesis by (simp add: deque_popleft_def Suc.IH)
  next
    case (Cons x xs)
    then show ?thesis by (simp add: deque_popleft_def Suc.IH)
  qed
qed

lemma get_batch_take_drop:
  "get_batch n b =
     (take (nat n) (items (queue b)),
      b\<lparr>queue := (queue b)\<lparr>items := drop (nat n) (items (queue b))\<rparr>\<rparr>)"
proof -
  let ?xs = "items (queue b)"
  have t: "take (nat (min n (int (length ?xs)))) ?xs = take (nat n) ?xs"
    by (cases "n \<le> int (length ?xs)") (simp_all add: min_def)
  have d: "drop (nat (min n (int (length ?xs)))) ?xs = drop (nat n) ?xs"
    by (cases "n \<le> int (length ?xs)") (simp_all add: min_def)
  show ?thesis
    by (simp add: get_batch_def get_batch_loop_take_drop deque_len_def t d)
qed

lemma init_inv: "EventBuffer_init c = Inr b \<Longrightarrow> buffer_inv c b"
  by (auto simp: EventBuffer_init_def deque_new_def buffer_inv_def split: if_splits)

lemma deque_append_length:
  "length (items q) \<le> maxlen q \<Longrightarrow> length (items (deque_append x q)) \<le> maxlen q"
  by (simp add: deque_append_def Let_def)

lemma deque_append_maxlen: "maxlen (deque_append x q) = maxlen q"
  by (simp add: deque_append_def Let_def)

lemma add_event_inv: "buffer_inv c b \<Longrightarrow> buffer_inv c (snd (add_event ev b))"
  by (simp add: add_event_def buffer_inv_def deque_append_length deque_append_maxlen)

lemma get_batch_inv: "buffer_inv c b \<Longrightarrow> buffer_inv c (snd (get_batch n b))"
  by (auto simp: get_batch_take_drop buffer_inv_def)

lemma mark_processed_inv: "buffer_inv c b \<Longrightarrow> buffer_inv c (mark_processed k b)"
  by (simp add: mark_processed_def buffer_inv_def)

lemma apply_op_inv: "buffer_inv c (fst st) \<Longrightarrow> buffer_inv c (fst (apply_op op st))"
  by (cases op; cases st) (simp_all add: add_event_inv get_batch_inv mark_processed_inv split_beta)

lemma run_ops_inv: "buffer_inv c (fst st) \<Longrightarrow> buffer_inv c (fst (run_ops ops st))"
  unfolding run_ops_def by (induction ops arbitrary: st) (simp_all add: apply_op_inv)

text \<open>
  Claim C5. A buffer constructed with capacity \<open>max_size\<close> never holds more than
  \<open>max_size\<close> events, whatever sequence of admissions, extractions and accountings of
  writes it has gone through since its construction.
\<close>

theorem queue_size_le_capacity:
  assumes "EventBuffer_init max_size = Inr b0"
    and "run_ops ops (b0, []) = (b, held)"
  shows "deque_len (queue b) \<le> max_size"
proof -
  have "buffer_inv max_size (fst (run_ops ops (b0, [])))"
    using assms(1) by (simp add: run_ops_inv init_inv)
  then show ?thesis
    using assms(2) by (simp add: buffer_inv_def deque_len_def)
qed

theorem queue_size_le_capacity_witness:
  "EventBuffer_init 2 =
     Inr \<lparr>queue = \<lparr>items = [], maxlen = 2\<rparr>,
          total_received = 0, total_processed = 0, total_dropped = 0\<rparr>
   \<and> run_ops [Admit [], Admit [(''a'', PNone)], Admit [], Extract 1, Written, Admit []]
        (\<lparr>queue = \<lparr>items = [], maxlen = 2\<rparr>,
          total_received = 0, total_processed = 0, total_dropped = 0\<rparr>, [])
      = (\<lparr>queue = \<lparr>items = [[], []], maxlen = 2\<rparr>,
          total_received = 4, total_processed = 1, total_dropped = 0\<rparr>, [])
   \<and> deque_len (queue \<lparr>queue = \<lparr>items = [[], []], maxlen = 2\<rparr>,
          total_received = 4, total_processed = 1, total_dropped = 0\<rparr>) \<le> 2"
proof -
  have i: "EventBuffer_init 2 =
     Inr \<lparr>queue = \<lparr>items = [], maxlen = 2\<rparr>,
          total_received = 0, total_processed = 0, total_dropped = 0\<rparr>"
    by (simp add: EventBuffer_init_def deque_new_def)
  have r: "run_ops [Admit [], Admit [(''a'', PNone)], Admit [], Extract 1, Written, Admit []]
        (\<lparr>queue = \<lparr>items = [], maxlen = 2\<rparr>,
          total_received = 0, total_processed = 0, total_dropped = 0\<rparr>, [])
      = (\<lparr>queue = \<lparr>items = [[], []], maxlen = 2\<rparr>,
          total_received = 4, total_processed = 1, total_dropped = 0\<rparr>, [])"
    by (simp add: run_ops_def add_event_def get_batch_take_drop mark_processed_def
        deque_append_def deque_len_def MAX_QUEUE_SIZE_def)
  show ?thesis using i r queue_size_le_capacity [OF i r] by simp
qed

lemma MAX_QUEUE_SIZE_nonneg: "0 \<le> MAX_QUEUE_SIZE"
  by (simp add: MAX_QUEUE_SIZE_def)

lemma deque_append_suffix: "suffix (items (deque_append x q)) (items q @ [x])"
proof (cases "maxlen q < length (items q @ [x])")
  case True
  then have "items (deque_append x q) = tl (items q @ [x])"
    by (simp add: deque_append_def Let_def)
  then show ?thesis by (metis suffix_tl)
next
  case False
  then have "items (deque_append x q) = items q @ [x]"
    by (simp add: deque_append_def Let_def)
  then show ?thesis by (metis suffix_order.refl)
qed

lemma add_event_items_suffix:
  assumes "add_event ev b = (ok, b')"
  shows "suffix (items (queue b')) (items (queue b) @ (if ok then [ev] else []))"
proof (cases "MAX_QUEUE_SIZE \<le> deque_len (queue b)")
  case True
  with assms have "\<not> ok" "b' = b\<lparr>total_dropped := total_dropped b + 1\<rparr>"
    by (simp_all add: add_event_def)
  then show ?thesis by simp
next
  case False
  with assms have ok "items (queue b') = items (deque_append ev (queue b))"
    by (auto simp: add_event_def)
  then show ?thesis using deque_append_suffix [of ev "queue b"] by simp
qed

lemma accepted_Cons:
  "accepted (ev # evs) (ok # oks) = (if ok then [ev] else []) @ accepted evs oks"
  by (simp add: accepted_def)

lemma suffix_app_right: "suffix xs ys \<Longrightarrow> suffix (xs @ zs) (ys @ zs)"
  by (auto simp: suffix_def)

lemma admit_all_suffix:
  "admit_all evs b = (oks, b') \<Longrightarrow>
     suffix (items (queue b')) (items (queue b) @ accepted evs oks)"
proof (induction evs arbitrary: b oks b')
  case Nil
  then show ?case by (simp add: accepted_def)
next
  case (Cons ev evs)
  obtain ok b1 where a: "add_event ev b = (ok, b1)" by (cases "add_event ev b")
  obtain oks1 b2 where r: "admit_all evs b1 = (oks1, b2)" by (cases "admit_all evs b1")
  from Cons.prems a r have e: "oks = ok # oks1" "b' = b2" by simp_all
  have s1: "suffix (items (queue b1)) (items (queue b) @ (if ok then [ev] else []))"
    by (rule add_event_items_suffix [OF a])
  have s2: "suffix (items (queue b2)) (items (queue b1) @ accepted evs oks1)"
    by (rule Cons.IH [OF r])
  have "suffix (items (queue b1) @ accepted evs oks1)
          ((items (queue b) @ (if ok then [ev] else [])) @ accepted evs oks1)"
    by (rule suffix_app_right [OF s1])
  with s2 have "suffix (items (queue b2))
          ((items (queue b) @ (if ok then [ev] else [])) @ accepted evs oks1)"
    by (rule suffix_order.trans)
  then show ?case by (simp add: e accepted_Cons)
qed

text \<open>
  Claim C6. \<^verbatim>\<open>get_batch\<close> takes up to \<open>max_count\<close> events from the head of the queue,
  oldest first, leaves the rest in place and touches no counter; from an empty queue
  it returns the empty list. The batch is a prefix of the queue, and the queue is a
  suffix of the earlier content followed by the accepted events in the order of their
  admission, so the batch keeps that order.
\<close>

theorem get_batch_fifo:
  assumes "admit_all evs b = (oks, b1)"
    and "get_batch max_count b1 = (batch, b2)"
  shows "batch = take (nat max_count) (items (queue b1))
       \<and> items (queue b2) = drop (nat max_count) (items (queue b1))
       \<and> batch @ items (queue b2) = items (queue b1)
       \<and> int (length batch) \<le> max 0 max_count
       \<and> (items (queue b1) = [] \<longrightarrow> batch = [])
       \<and> prefix batch (items (queue b1))
       \<and> suffix (items (queue b1)) (items (queue b) @ accepted evs oks)
       \<and> total_received b2 = total_received b1
       \<and> total_processed b2 = total_processed b1
       \<and> total_dropped b2 = total_dropped b1"
proof -
  from assms(2) have b: "batch = take (nat max_count) (items (queue b1))"
    and q: "items (queue b2) = drop (nat max_count) (items (queue b1))"
    and c: "total_received b2 = total_received b1" "total_processed b2 = total_processed b1"
           "total_dropped b2 = total_dropped b1"
    by (auto simp: get_batch_take_drop)
  have l: "int (length batch) \<le> max 0 max_count"
    unfolding b by (cases "0 \<le> max_count") simp_all
  have p: "prefix batch (items (queue b1))"
    unfolding b by (rule take_is_prefix)
  show ?thesis
    using b q c l p admit_all_suffix [OF assms(1)] by simp
qed

theorem get_batch_fifo_witness:
  "admit_all [[(''k'', PInt 1)], [(''k'', PInt 2)], [(''k'', PInt 3)]]
      \<lparr>queue = \<lparr>items = [[(''k'', PInt 0)]], maxlen = 3\<rparr>,
       total_received = 1, total_processed = 0, total_dropped = 0\<rparr>
    = ([True, True, True],
       \<lparr>queue = \<lparr>items = [[(''k'', PInt 1)], [(''k'', PInt 2)], [(''k'', PInt 3)]], maxlen = 3\<rparr>,
        total_received = 4, total_processed = 0, total_dropped = 0\<rparr>)
   \<and> get_batch 2
      \<lparr>queue = \<lparr>items = [[(''k'', PInt 1)], [(''k'', PInt 2)], [(''k'', PInt 3)]], maxlen = 3\<rparr>,
       total_received = 4, total_processed = 0, total_dropped = 0\<rparr>
    = ([[(''k'', PInt 1)], [(''k'', PInt 2)]],
       \<lparr>queue = \<lparr>items = [[(''k'', PInt 3)]], maxlen = 3\<rparr>,
        total_received = 4, total_processed = 0, total_dropped = 0\<rparr>)
   \<and> prefix [[(''k'', PInt 1)], [(''k'', PInt 2)]]
        [[(''k'', PInt 1)], [(''k'', PInt 2)], [(''k'', PInt 3)]]
   \<and> suffix [[(''k'', PInt 1)], [(''k'', PInt 2)], [(''k'', PInt 3)]]
        ([[(''k'', PInt 0)]] @
         accepted [[(''k'', PInt 1)], [(''k'', PInt 2)], [(''k'', PInt 3)]] [True, True, True])"
proof -
  have e1: "add_event [(''k'', PInt 1)]
      \<lparr>queue = \<lparr>items = [[(''k'', PInt 0)]], maxlen = 3\<rparr>,
       total_received = 1, total_processed = 0, total_dropped = 0\<rparr>
    = (True, \<lparr>queue = \<lparr>items = [[(''k'', PInt 0)], [(''k'', PInt 1)]], maxlen = 3\<rparr>,
       total_received = 2, total_processed = 0, total_dropped = 0\<rparr>)"
    by (simp add: add_event_def deque_append_def deque_len_def MAX_QUEUE_SIZE_def)
  have e2: "add_event [(''k'', PInt 2)]
      \<lparr>queue = \<lparr>items = [[(''k'', PInt 0)], [(''k'', PInt 1)]], maxlen = 3\<rparr>,
       total_received = 2, total_processed = 0, total_dropped = 0\<rparr>
    = (True, \<lparr>queue = \<lparr>items = [[(''k'', PInt 0)], [(''k'', PInt 1)], [(''k'', PInt 2)]], maxlen = 3\<rparr>,
       total_received = 3, total_processed = 0, total_dropped = 0\<rparr>)"
    by (simp add: add_event_def deque_append_def deque_len_def MAX_QUEUE_SIZE_def)
  have e3: "add_event [(''k'', PInt 3)]
      \<lparr>queue = \<lparr>items = [[(''k'', PInt 0)], [(''k'', PInt 1)], [(''k'', PInt 2)]], maxlen = 3\<rparr>,
       total_received = 3, total_processed = 0, total_dropped = 0\<rparr>
    = (True, \<lparr>queue = \<lparr>items = [[(''k'', PInt 1)], [(''k'', PInt 2)], [(''k'', PInt 3)]], maxlen = 3\<rparr>,
       total_received = 4, total_processed = 0, total_dropped = 0\<rparr>)"
    by (simp add: add_event_def deque_append_def deque_len_def MAX_QUEUE_SIZE_def)
  have a: "admit_all [[(''k'', PInt 1)], [(''k'', PInt 2)], [(''k'', PInt 3)]]
      \<lparr>queue = \<lparr>items = [[(''k'', PInt 0)]], maxlen = 3\<rparr>,
       total_received = 1, total_processed = 0, total_dropped = 0\<rparr>
    = ([True, True, True],
       \<lparr>queue = \<lparr>items = [[(''k'', PInt 1)], [(''k'', PInt 2)], [(''k'', PInt 3)]], maxlen = 3\<rparr>,
        total_received = 4, total_processed = 0, total_dropped = 0\<rparr>)"
    by (simp add: e1 e2 e3)
  have g: "get_batch 2
      \<lparr>queue = \<lparr>items = [[(''k'', PInt 1)], [(''k'', PInt 2)], [(''k'', PInt 3)]], maxlen = 3\<rparr>,
       total_received = 4, total_processed = 0, total_dropped = 0\<rparr>
    = ([[(''k'', PInt 1)], [(''k'', PInt 2)]],
       \<lparr>queue = \<lparr>items = [[(''k'', PInt 3)]], maxlen = 3\<rparr>,
        total_received = 4, total_processed = 0, total_dropped = 0\<rparr>)"
    by (simp add: get_batch_take_drop)
  have f: "prefix [[(''k'', PInt 1)], [(''k'', PInt 2)]]
        [[(''k'', PInt 1)], [(''k'', PInt 2)], [(''k'', PInt 3)]]
   \<and> suffix [[(''k'', PInt 1)], [(''k'', PInt 2)], [(''k'', PInt 3)]]
        ([[(''k'', PInt 0)]] @
         accepted [[(''k'', PInt 1)], [(''k'', PInt 2)], [(''k'', PInt 3)]] [True, True, True])"
    using get_batch_fifo [OF a g] by simp
  show ?thesis by (rule conjI [OF a conjI [OF g f]])
qed


text \<open>
  Claim C10. A call of \<^verbatim>\<open>add_event\<close> adds one to \<open>total_received\<close> exactly when it
  returns true, adds one to \<open>total_dropped\<close> exactly when it returns false, leaves the
  other of the two unchanged, and never changes \<open>total_processed\<close>.
\<close>

theorem add_event_counters:
  assumes "add_event ev b = (ok, b')"
  shows "total_processed b' = total_processed b
       \<and> (ok \<longleftrightarrow> total_received b' = total_received b + 1)
       \<and> (\<not> ok \<longleftrightarrow> total_dropped b' = total_dropped b + 1)
       \<and> (ok \<longrightarrow> total_dropped b' = total_dropped b)
       \<and> (\<not> ok \<longrightarrow> total_received b' = total_received b)"
  using assms by (auto simp: add_event_def split: if_splits)

theorem add_event_counters_witness:
  "add_event [(''user_id'', PInt 7)]
      \<lparr>queue = \<lparr>items = [], maxlen = 5\<rparr>,
       total_received = 0, total_processed = 0, total_dropped = 0\<rparr>
    = (True, \<lparr>queue = \<lparr>items = [[(''user_id'', PInt 7)]], maxlen = 5\<rparr>,
              total_received = 1, total_processed = 0, total_dropped = 0\<rparr>)
   \<and> add_event [(''user_id'', PInt 7)]
      \<lparr>queue = \<lparr>items = replicate (nat MAX_QUEUE_SIZE) [], maxlen = nat MAX_QUEUE_SIZE\<rparr>,
       total_received = 3, total_processed = 0, total_dropped = 0\<rparr>
    = (False, \<lparr>queue = \<lparr>items = replicate (nat MAX_QUEUE_SIZE) [], maxlen = nat MAX_QUEUE_SIZE\<rparr>,
               total_received = 3, total_processed = 0, total_dropped = 1\<rparr>)"
proof -
  have w1: "add_event [(''user_id'', PInt 7)]
      \<lparr>queue = \<lparr>items = [], maxlen = 5\<rparr>,
       total_received = 0, total_processed = 0, total_dropped = 0\<rparr>
    = (True, \<lparr>queue = \<lparr>items = [[(''user_id'', PInt 7)]], maxlen = 5\<rparr>,
              total_received = 1, total_processed = 0, total_dropped = 0\<rparr>)"
    by (simp add: add_event_def deque_append_def deque_len_def MAX_QUEUE_SIZE_def)
  have w2: "add_event [(''user_id'', PInt 7)]
      \<lparr>queue = \<lparr>items = replicate (nat MAX_QUEUE_SIZE) [], maxlen = nat MAX_QUEUE_SIZE\<rparr>,
       total_received = 3, total_processed = 0, total_dropped = 0\<rparr>
    = (False, \<lparr>queue = \<lparr>items = replicate (nat MAX_QUEUE_SIZE) [], maxlen = nat MAX_QUEUE_SIZE\<rparr>,
               total_received = 3, total_processed = 0, total_dropped = 1\<rparr>)"
    by (simp add: add_event_def deque_len_def MAX_QUEUE_SIZE_nonneg)
  show ?thesis
    using w1 w2 add_event_counters [OF w1] add_event_counters [OF w2] by simp
qed

lemma admit_all_fits:
  assumes "int (length (items (queue b)) + length evs) \<le> MAX_QUEUE_SIZE"
    and "length (items (queue b)) + length evs \<le> maxlen (queue b)"
  shows "admit_all evs b =
           (replicate (length evs) True,
            b\<lparr>queue := (queue b)\<lparr>items := items (queue b) @ evs\<rparr>,
              total_received := total_received b + int (length evs)\<rparr>)"
  using assms
proof (induction evs arbitrary: b)
  case Nil
  show ?case by simp
next
  case (Cons ev evs)
  let ?b1 = "b\<lparr>queue := (queue b)\<lparr>items := items (queue b) @ [ev]\<rparr>,
               total_received := total_received b + 1\<rparr>"
  have a: "add_event ev b = (True, ?b1)"
    using Cons.prems by (simp add: add_event_def deque_len_def deque_append_def Let_def)
  have p1: "int (length (items (queue ?b1)) + length evs) \<le> MAX_QUEUE_SIZE"
    using Cons.prems(1) by simp
  have p2: "length (items (queue ?b1)) + length evs \<le> maxlen (queue ?b1)"
    using Cons.prems(2) by simp
  have s: "admit_all (ev # evs) b = (True # fst (admit_all evs ?b1), snd (admit_all evs ?b1))"
    by (simp add: a split_beta)
  show ?case
    unfolding s Cons.IH [OF p1 p2] by simp
qed

lemma run_ops_admits: "run_ops (map Admit evs) (b, held) = (snd (admit_all evs b), held)"
  unfolding run_ops_def by (induction evs arbitrary: b) (simp_all add: split_beta)

lemma run_ops_append: "run_ops (xs @ ys) st = run_ops ys (run_ops xs st)"
  by (simp add: run_ops_def)


lemma apply_op_balance:
  assumes "buffer_inv c (fst st)" and "MAX_QUEUE_SIZE \<le> c"
  shows "balance (apply_op op st) = balance st + let_go op st"
proof (cases st)
  case (Pair b held)
  show ?thesis
  proof (cases op)
    case (Admit ev)
    show ?thesis
    proof (cases "MAX_QUEUE_SIZE \<le> deque_len (queue b)")
      case True
      then show ?thesis using Pair Admit by (simp add: balance_def add_event_def)
    next
      case False
      then have "\<not> maxlen (queue b) < Suc (length (items (queue b)))"
        using assms Pair by (auto simp: buffer_inv_def deque_len_def)
      then show ?thesis
        using False Pair Admit
        by (simp add: balance_def add_event_def deque_append_def deque_len_def Let_def)
    qed
  next
    case (Extract n)
    have "int (length (take (nat n) (items (queue b)))) + int (length (drop (nat n) (items (queue b))))
            = int (length (items (queue b)))"
      by (simp add: min_def)
    then show ?thesis
      using Pair Extract by (simp add: balance_def get_batch_take_drop deque_len_def)
  next
    case Written
    then show ?thesis using Pair by (simp add: balance_def mark_processed_def)
  next
    case WriteFailed
    then show ?thesis using Pair by (simp add: balance_def)
  qed
qed

lemma run_ops_balance:
  assumes "buffer_inv c (fst st)" and "MAX_QUEUE_SIZE \<le> c"
  shows "balance (run_ops ops st) = balance st + unaccounted ops st"
  using assms(1)
proof (induction ops arbitrary: st)
  case Nil
  show ?case by (simp add: run_ops_def)
next
  case (Cons op ops)
  have i: "buffer_inv c (fst (apply_op op st))" by (rule apply_op_inv [OF Cons.prems])
  have "run_ops (op # ops) st = run_ops ops (apply_op op st)" by (simp add: run_ops_def)
  then show ?case
    using Cons.IH [OF i] apply_op_balance [OF Cons.prems assms(2), of op] by simp
qed

lemma apply_op_submitted:
  "total_received (fst (apply_op op st)) + total_dropped (fst (apply_op op st))
     = total_received (fst st) + total_dropped (fst st) + (if is_admit op then 1 else 0)"
  by (cases op; cases st) (simp_all add: add_event_def get_batch_take_drop mark_processed_def)

lemma run_ops_submitted:
  "total_received (fst (run_ops ops st)) + total_dropped (fst (run_ops ops st))
     = total_received (fst st) + total_dropped (fst st) + submitted ops"
proof (induction ops arbitrary: st)
  case Nil
  show ?case by (simp add: run_ops_def submitted_def)
next
  case (Cons op ops)
  have "run_ops (op # ops) st = run_ops ops (apply_op op st)" by (simp add: run_ops_def)
  then show ?case
    using Cons.IH [of "apply_op op st"] apply_op_submitted [of op st]
    by (simp add: submitted_def)
qed

lemma init_balance: "EventBuffer_init c = Inr b \<Longrightarrow> balance (b, []) = 0 \<and> total_received b + total_dropped b = 0"
  by (auto simp: EventBuffer_init_def deque_new_def balance_def deque_len_def split: if_splits)

lemma default_buffer_overflow:
  "run_ops (map Admit (replicate (nat MAX_QUEUE_SIZE) []) @ [Admit []])
        (\<lparr>queue = \<lparr>items = [], maxlen = nat MAX_QUEUE_SIZE\<rparr>,
          total_received = 0, total_processed = 0, total_dropped = 0\<rparr>, [])
      = (\<lparr>queue = \<lparr>items = replicate (nat MAX_QUEUE_SIZE) [], maxlen = nat MAX_QUEUE_SIZE\<rparr>,
          total_received = MAX_QUEUE_SIZE, total_processed = 0, total_dropped = 1\<rparr>, [])"
proof -
  let ?b0 = "\<lparr>queue = \<lparr>items = [], maxlen = nat MAX_QUEUE_SIZE\<rparr>,
          total_received = 0, total_processed = 0, total_dropped = 0\<rparr>"
  let ?full = "\<lparr>queue = \<lparr>items = replicate (nat MAX_QUEUE_SIZE) [], maxlen = nat MAX_QUEUE_SIZE\<rparr>,
          total_received = MAX_QUEUE_SIZE, total_processed = 0, total_dropped = 0\<rparr>"
  have f: "admit_all (replicate (nat MAX_QUEUE_SIZE) []) ?b0
             = (replicate (length (replicate (nat MAX_QUEUE_SIZE) ([]::event))) True,
                ?b0\<lparr>queue := (queue ?b0)\<lparr>items := items (queue ?b0) @ replicate (nat MAX_QUEUE_SIZE) []\<rparr>,
                     total_received := total_received ?b0
                        + int (length (replicate (nat MAX_QUEUE_SIZE) ([]::event)))\<rparr>)"
    by (rule admit_all_fits) (simp_all add: MAX_QUEUE_SIZE_nonneg)
  have f': "snd (admit_all (replicate (nat MAX_QUEUE_SIZE) []) ?b0) = ?full"
    unfolding f using MAX_QUEUE_SIZE_nonneg by simp
  have d: "add_event [] ?full = (False, ?full\<lparr>total_dropped := 1\<rparr>)"
    by (simp add: add_event_def deque_len_def MAX_QUEUE_SIZE_nonneg)
  show ?thesis
    unfolding run_ops_append run_ops_admits f' by (simp add: run_ops_def d)
qed

text \<open>
  Claim C1, as amended. The equation of the claim fails: \<open>total_received\<close> counts the
  accepted events only, so a refused event raises \<open>total_dropped\<close> alone, and a batch
  whose write failed has left the queue without reaching \<open>total_processed\<close>. What
  holds in every state reached from a fresh buffer whose capacity is at least
  \<^verbatim>\<open>MAX_QUEUE_SIZE\<close> is an exact account: every received event is marked as processed,
  or queued, or in the worker's hands, or was let go of by the worker without
  accounting; and every submitted event was counted once, as received or as dropped.
\<close>

theorem every_received_event_accounted:
  assumes "EventBuffer_init max_size = Inr b0"
    and "MAX_QUEUE_SIZE \<le> max_size"
    and "run_ops ops (b0, []) = (b, held)"
  shows "total_received b
           = total_processed b + deque_len (queue b) + int (length held)
               + unaccounted ops (b0, [])
       \<and> total_received b + total_dropped b = submitted ops"
proof -
  have v: "buffer_inv max_size (fst (b0, ([]::event list)))"
    using init_inv [OF assms(1)] by simp
  have "balance (run_ops ops (b0, [])) = balance (b0, []) + unaccounted ops (b0, [])"
    by (rule run_ops_balance [OF v assms(2)])
  then have e: "balance (b, held) = unaccounted ops (b0, [])"
    using init_balance [OF assms(1)] assms(3) by simp
  have s: "total_received b + total_dropped b = submitted ops"
    using run_ops_submitted [of ops "(b0, [])"] init_balance [OF assms(1)] assms(3) by simp
  show ?thesis using e s by (simp add: balance_def)
qed


theorem every_received_event_accounted_witness:
  "EventBuffer_init MAX_QUEUE_SIZE =
     Inr \<lparr>queue = \<lparr>items = [], maxlen = nat MAX_QUEUE_SIZE\<rparr>,
          total_received = 0, total_processed = 0, total_dropped = 0\<rparr>
   \<and> MAX_QUEUE_SIZE \<le> MAX_QUEUE_SIZE
   \<and> run_ops [Admit [(''k'', PInt 1)], Admit [(''k'', PInt 2)], Admit [(''k'', PInt 3)],
              Admit [(''k'', PInt 4)], Extract 1, Written, Extract 1, WriteFailed, Extract 1]
        (\<lparr>queue = \<lparr>items = [], maxlen = nat MAX_QUEUE_SIZE\<rparr>,
          total_received = 0, total_processed = 0, total_dropped = 0\<rparr>, [])
      = (\<lparr>queue = \<lparr>items = [[(''k'', PInt 4)]], maxlen = nat MAX_QUEUE_SIZE\<rparr>,
          total_received = 4, total_processed = 1, total_dropped = 0\<rparr>, [[(''k'', PInt 3)]])
   \<and> unaccounted [Admit [(''k'', PInt 1)], Admit [(''k'', PInt 2)], Admit [(''k'', PInt 3)],
              Admit [(''k'', PInt 4)], Extract 1, Written, Extract 1, WriteFailed, Extract 1]
        (\<lparr>queue = \<lparr>items = [], maxlen = nat MAX_QUEUE_SIZE\<rparr>,
          total_received = 0, total_processed = 0, total_dropped = 0\<rparr>, []) = 1
   \<and> submitted [Admit [(''k'', PInt 1)], Admit [(''k'', PInt 2)], Admit [(''k'', PInt 3)],
              Admit [(''k'', PInt 4)], Extract 1, Written, Extract 1, WriteFailed, Extract 1] = 4
   \<and> run_ops (map Admit (replicate (nat MAX_QUEUE_SIZE) []) @ [Admit []])
        (\<lparr>queue = \<lparr>items = [], maxlen = nat MAX_QUEUE_SIZE\<rparr>,
          total_received = 0, total_processed = 0, total_dropped = 0\<rparr>, [])
      = (\<lparr>queue = \<lparr>items = replicate (nat MAX_QUEUE_SIZE) [], maxlen = nat MAX_QUEUE_SIZE\<rparr>,
          total_received = MAX_QUEUE_SIZE, total_processed = 0, total_dropped = 1\<rparr>, [])
   \<and> unaccounted (map Admit (replicate (nat MAX_QUEUE_SIZE) []) @ [Admit []])
        (\<lparr>queue = \<lparr>items = [], maxlen = nat MAX_QUEUE_SIZE\<rparr>,
          total_received = 0, total_processed = 0, total_dropped = 0\<rparr>, []) = 0
   \<and> submitted (map Admit (replicate (nat MAX_QUEUE_SIZE) []) @ [Admit []]) = MAX_QUEUE_SIZE + 1"
proof -
  let ?b0 = "\<lparr>queue = \<lparr>items = [], maxlen = nat MAX_QUEUE_SIZE\<rparr>,
          total_received = 0, total_processed = 0, total_dropped = 0\<rparr>"
  have i: "EventBuffer_init MAX_QUEUE_SIZE = Inr ?b0"
    using MAX_QUEUE_SIZE_nonneg by (simp add: EventBuffer_init_def deque_new_def)
  have m: "MAX_QUEUE_SIZE \<le> MAX_QUEUE_SIZE" by simp
  have r: "run_ops [Admit [(''k'', PInt 1)], Admit [(''k'', PInt 2)], Admit [(''k'', PInt 3)],
              Admit [(''k'', PInt 4)], Extract 1, Written, Extract 1, WriteFailed, Extract 1]
        (?b0, [])
      = (\<lparr>queue = \<lparr>items = [[(''k'', PInt 4)]], maxlen = nat MAX_QUEUE_SIZE\<rparr>,
          total_received = 4, total_processed = 1, total_dropped = 0\<rparr>, [[(''k'', PInt 3)]])"
    by (simp add: run_ops_def add_event_def get_batch_take_drop mark_processed_def
        deque_append_def deque_len_def MAX_QUEUE_SIZE_def)
  have o: "run_ops (map Admit (replicate (nat MAX_QUEUE_SIZE) []) @ [Admit []]) (?b0, [])
      = (\<lparr>queue = \<lparr>items = replicate (nat MAX_QUEUE_SIZE) [], maxlen = nat MAX_QUEUE_SIZE\<rparr>,
          total_received = MAX_QUEUE_SIZE, total_processed = 0, total_dropped = 1\<rparr>, [])"
    by (rule default_buffer_overflow)
  have c1: "unaccounted [Admit [(''k'', PInt 1)], Admit [(''k'', PInt 2)], Admit [(''k'', PInt 3)],
              Admit [(''k'', PInt 4)], Extract 1, Written, Extract 1, WriteFailed, Extract 1]
        (?b0, []) = 1
   \<and> submitted [Admit [(''k'', PInt 1)], Admit [(''k'', PInt 2)], Admit [(''k'', PInt 3)],
              Admit [(''k'', PInt 4)], Extract 1, Written, Extract 1, WriteFailed, Extract 1] = 4"
    using every_received_event_accounted [OF i m r] by (simp add: deque_len_def)
  have c2: "unaccounted (map Admit (replicate (nat MAX_QUEUE_SIZE) []) @ [Admit []]) (?b0, []) = 0
   \<and> submitted (map Admit (replicate (nat MAX_QUEUE_SIZE) []) @ [Admit []]) = MAX_QUEUE_SIZE + 1"
    using every_received_event_accounted [OF i m o] MAX_QUEUE_SIZE_nonneg by (simp add: deque_len_def)
  show ?thesis
    by (rule conjI [OF i conjI [OF m conjI [OF r conjI [OF conjunct1 [OF c1] conjI [OF conjunct2 [OF c1]
          conjI [OF o c2]]]]]])
qed

text \<open>
  The claim as stated fails after one accepted event whose write fails, and also after
  one event more than the queue takes has been submitted to the default buffer.
\<close>

theorem counter_equation_counterexample:
  "EventBuffer_init MAX_QUEUE_SIZE =
     Inr \<lparr>queue = \<lparr>items = [], maxlen = nat MAX_QUEUE_SIZE\<rparr>,
          total_received = 0, total_processed = 0, total_dropped = 0\<rparr>
   \<and> run_ops [Admit [(''user_id'', PInt 1)], Extract BATCH_SIZE, WriteFailed]
        (\<lparr>queue = \<lparr>items = [], maxlen = nat MAX_QUEUE_SIZE\<rparr>,
          total_received = 0, total_processed = 0, total_dropped = 0\<rparr>, [])
      = (\<lparr>queue = \<lparr>items = [], maxlen = nat MAX_QUEUE_SIZE\<rparr>,
          total_received = 1, total_processed = 0, total_dropped = 0\<rparr>, [])
   \<and> (1::int) \<noteq> 0 + 0 + deque_len \<lparr>items = [], maxlen = nat MAX_QUEUE_SIZE\<rparr>
   \<and> run_ops (map Admit (replicate (nat MAX_QUEUE_SIZE) []) @ [Admit []])
        (\<lparr>queue = \<lparr>items = [], maxlen = nat MAX_QUEUE_SIZE\<rparr>,
          total_received = 0, total_processed = 0, total_dropped = 0\<rparr>, [])
      = (\<lparr>queue = \<lparr>items = replicate (nat MAX_QUEUE_SIZE) [], maxlen = nat MAX_QUEUE_SIZE\<rparr>,
          total_received = MAX_QUEUE_SIZE, total_processed = 0, total_dropped = 1\<rparr>, [])
   \<and> MAX_QUEUE_SIZE \<noteq> 0 + 1 +
         deque_len \<lparr>items = replicate (nat MAX_QUEUE_SIZE) [], maxlen = nat MAX_QUEUE_SIZE\<rparr>"
proof -
  let ?b0 = "\<lparr>queue = \<lparr>items = [], maxlen = nat MAX_QUEUE_SIZE\<rparr>,
          total_received = 0, total_processed = 0, total_dropped = 0\<rparr>"
  let ?full = "\<lparr>queue = \<lparr>items = replicate (nat MAX_QUEUE_SIZE) [], maxlen = nat MAX_QUEUE_SIZE\<rparr>,
          total_received = MAX_QUEUE_SIZE, total_processed = 0, total_dropped = 0\<rparr>"
  have i: "EventBuffer_init MAX_QUEUE_SIZE = Inr ?b0"
    using MAX_QUEUE_SIZE_nonneg by (simp add: EventBuffer_init_def deque_new_def)
  have r: "run_ops [Admit [(''user_id'', PInt 1)], Extract BATCH_SIZE, WriteFailed] (?b0, [])
      = (\<lparr>queue = \<lparr>items = [], maxlen = nat MAX_QUEUE_SIZE\<rparr>,
          total_received = 1, total_processed = 0, total_dropped = 0\<rparr>, [])"
    by (simp add: run_ops_def add_event_def get_batch_take_drop deque_append_def
        deque_len_def MAX_QUEUE_SIZE_def BATCH_SIZE_def)
  have n1: "(1::int) \<noteq> 0 + 0 + deque_len \<lparr>items = [], maxlen = nat MAX_QUEUE_SIZE\<rparr>"
    by (simp add: deque_len_def)
  have f: "admit_all (replicate (nat MAX_QUEUE_SIZE) []) ?b0
             = (replicate (length (replicate (nat MAX_QUEUE_SIZE) ([]::event))) True,
                ?b0\<lparr>queue := (queue ?b0)\<lparr>items := items (queue ?b0) @ replicate (nat MAX_QUEUE_SIZE) []\<rparr>,
                     total_received := total_received ?b0
                        + int (length (replicate (nat MAX_QUEUE_SIZE) ([]::event)))\<rparr>)"
    by (rule admit_all_fits) (simp_all add: MAX_QUEUE_SIZE_nonneg)
  have f': "snd (admit_all (replicate (nat MAX_QUEUE_SIZE) []) ?b0) = ?full"
    unfolding f using MAX_QUEUE_SIZE_nonneg by simp
  have d: "add_event [] ?full = (False, ?full\<lparr>total_dropped := 1\<rparr>)"
    by (simp add: add_event_def deque_len_def MAX_QUEUE_SIZE_nonneg)
  have o: "run_ops (map Admit (replicate (nat MAX_QUEUE_SIZE) []) @ [Admit []]) (?b0, [])
      = (\<lparr>queue = \<lparr>items = replicate (nat MAX_QUEUE_SIZE) [], maxlen = nat MAX_QUEUE_SIZE\<rparr>,
          total_received = MAX_QUEUE_SIZE, total_processed = 0, total_dropped = 1\<rparr>, [])"
    unfolding run_ops_append run_ops_admits f' by (simp add: run_ops_def d)
  have n2: "MAX_QUEUE_SIZE \<noteq> 0 + 1 +
         deque_len \<lparr>items = replicate (nat MAX_QUEUE_SIZE) [], maxlen = nat MAX_QUEUE_SIZE\<rparr>"
    by (simp add: deque_len_def MAX_QUEUE_SIZE_nonneg)
  show ?thesis by (rule conjI [OF i conjI [OF r conjI [OF n1 conjI [OF o n2]]]])
qed

lemma add_event_below_max:
  assumes "buffer_inv c b" and "c < MAX_QUEUE_SIZE"
  shows "add_event ev b =
           (True, b\<lparr>queue := deque_append ev (queue b), total_received := total_received b + 1\<rparr>)"
  using assms by (simp add: add_event_def buffer_inv_def deque_len_def)

lemma deque_append_len:
  "length (items q) \<le> maxlen q \<Longrightarrow>
     length (items (deque_append x q)) = min (maxlen q) (Suc (length (items q)))"
  by (auto simp: deque_append_def Let_def)

lemma admit_all_below_max:
  assumes "buffer_inv c b" and "c < MAX_QUEUE_SIZE"
  shows "fst (admit_all evs b) = replicate (length evs) True
       \<and> total_dropped (snd (admit_all evs b)) = total_dropped b
       \<and> total_received (snd (admit_all evs b)) = total_received b + int (length evs)
       \<and> total_processed (snd (admit_all evs b)) = total_processed b
       \<and> length (items (queue (snd (admit_all evs b))))
           = min (nat c) (length (items (queue b)) + length evs)"
  using assms(1)
proof (induction evs arbitrary: b)
  case Nil
  then show ?case by (auto simp: buffer_inv_def)
next
  case (Cons ev evs)
  let ?b1 = "b\<lparr>queue := deque_append ev (queue b), total_received := total_received b + 1\<rparr>"
  have a: "add_event ev b = (True, ?b1)"
    by (rule add_event_below_max [OF Cons.prems assms(2)])
  have i: "buffer_inv c ?b1"
    using add_event_inv [OF Cons.prems, of ev] a by simp
  have l: "length (items (queue ?b1)) = min (nat c) (Suc (length (items (queue b))))"
    using Cons.prems by (auto simp: buffer_inv_def deque_append_len deque_append_maxlen)
  have s: "admit_all (ev # evs) b = (True # fst (admit_all evs ?b1), snd (admit_all evs ?b1))"
    by (simp add: a split_beta)
  show ?case
    using Cons.IH [OF i] l unfolding s by (auto simp: min_def)
qed

text \<open>
  Claim C2, at the input of its scenario. \<^verbatim>\<open>add_event\<close> tests the length against the
  constant \<^verbatim>\<open>MAX_QUEUE_SIZE\<close>, not against the capacity the buffer was built with: a
  buffer of capacity 10 accepts all of 15 events, refuses none, and the bounded deque
  silently discards the oldest five.
\<close>

theorem capacity_10_admits_15:
  "EventBuffer_init 10 =
     Inr \<lparr>queue = \<lparr>items = [], maxlen = 10\<rparr>,
          total_received = 0, total_processed = 0, total_dropped = 0\<rparr>
   \<and> fst (admit_all (map (\<lambda>k. [(''user_id'', PInt (int k))]) [1..<16])
        \<lparr>queue = \<lparr>items = [], maxlen = 10\<rparr>,
         total_received = 0, total_processed = 0, total_dropped = 0\<rparr>)
       = replicate 15 True
   \<and> total_dropped (snd (admit_all (map (\<lambda>k. [(''user_id'', PInt (int k))]) [1..<16])
        \<lparr>queue = \<lparr>items = [], maxlen = 10\<rparr>,
         total_received = 0, total_processed = 0, total_dropped = 0\<rparr>)) = 0
   \<and> total_received (snd (admit_all (map (\<lambda>k. [(''user_id'', PInt (int k))]) [1..<16])
        \<lparr>queue = \<lparr>items = [], maxlen = 10\<rparr>,
         total_received = 0, total_processed = 0, total_dropped = 0\<rparr>)) = 15
   \<and> deque_len (queue (snd (admit_all (map (\<lambda>k. [(''user_id'', PInt (int k))]) [1..<16])
        \<lparr>queue = \<lparr>items = [], maxlen = 10\<rparr>,
         total_received = 0, total_processed = 0, total_dropped = 0\<rparr>))) = 10"
proof -
  let ?b0 = "\<lparr>queue = \<lparr>items = [], maxlen = 10\<rparr>,
          total_received = 0, total_processed = 0, total_dropped = 0\<rparr>"
  let ?evs = "map (\<lambda>k. [(''user_id'', PInt (int k))]) [1..<16]"
  have i: "EventBuffer_init 10 = Inr ?b0"
    by (simp add: EventBuffer_init_def deque_new_def)
  have v: "buffer_inv 10 ?b0" by (rule init_inv [OF i])
  have m: "(10::int) < MAX_QUEUE_SIZE" by (simp add: MAX_QUEUE_SIZE_def)
  have n: "length ?evs = 15" by simp
  note r = admit_all_below_max [OF v m, of ?evs]
  show ?thesis
    using i r unfolding n deque_len_def by simp
qed

section \<open>Properties of the database, the worker and the shutdown\<close>

lemma insert_batch_fst:
  "fst (insert_batch rp events db) =
     Inr (if events \<noteq> [] \<and> write_succeeds rp events then int (length events) else 0)"
  by (auto simp: insert_batch_def insert_batch_try_def write_succeeds_def executemany_def
      commit_def split: sum.splits option.splits prod.splits)

lemma insert_batch_eq:
  "\<exists>db'. insert_batch rp events db =
     (Inr (if events \<noteq> [] \<and> write_succeeds rp events then int (length events) else 0), db')"
  using insert_batch_fst [of rp events db] by (cases "insert_batch rp events db") auto

text \<open>
  Claim C9. \<^verbatim>\<open>insert_batch\<close> never raises: for every list of events and every
  behaviour of the connection its result is a count. The count is the length of the
  list when the list is not empty and the transaction succeeds, and 0 otherwise: for
  the empty list, and whenever building a row, \<^verbatim>\<open>executemany\<close> or \<^verbatim>\<open>commit\<close> raises.
\<close>

theorem insert_batch_result:
  "fst (insert_batch rp events db) =
     Inr (if events \<noteq> [] \<and> write_succeeds rp events then int (length events) else 0)"
  by (rule insert_batch_fst)

theorem insert_batch_result_witness:
  "fst (insert_batch \<lparr>executemany_raises = None, commit_raises = None\<rparr>
          [[(''user_id'', PInt 1), (''timestamp'', PStr ''t1''), (''metadata'', PDict [])],
              [(''user_id'', PInt 2), (''timestamp'', PStr ''t2''), (''metadata'', PDict [])]] \<lparr>pending = [], committed = []\<rparr>) = Inr 2
   \<and> fst (insert_batch \<lparr>executemany_raises = None, commit_raises = Some (DatabaseError ''disk full'')\<rparr>
          [[(''user_id'', PInt 1), (''timestamp'', PStr ''t1''), (''metadata'', PDict [])],
              [(''user_id'', PInt 2), (''timestamp'', PStr ''t2''), (''metadata'', PDict [])]] \<lparr>pending = [], committed = []\<rparr>) = Inr 0
   \<and> fst (insert_batch \<lparr>executemany_raises = None, commit_raises = None\<rparr>
          [[(''user_id'', PInt 3)]] \<lparr>pending = [], committed = []\<rparr>) = Inr 0
   \<and> fst (insert_batch \<lparr>executemany_raises = None, commit_raises = None\<rparr>
          [] \<lparr>pending = [], committed = []\<rparr>) = Inr 0"
proof -
  have r: "rows_of [[(''user_id'', PInt 1), (''timestamp'', PStr ''t1''), (''metadata'', PDict [])],
              [(''user_id'', PInt 2), (''timestamp'', PStr ''t2''), (''metadata'', PDict [])]] = Inr [(PInt 1, PStr ''t1'', PDict []), (PInt 2, PStr ''t2'', PDict [])]"
    by (simp add: row_of_def subscript_def json_dumps_def)
  have b: "rows_of [[(''user_id'', PInt 3)]] = Inl (KeyError ''timestamp'')"
    by (simp add: row_of_def subscript_def json_dumps_def)
  have w1: "fst (insert_batch \<lparr>executemany_raises = None, commit_raises = None\<rparr>
          [[(''user_id'', PInt 1), (''timestamp'', PStr ''t1''), (''metadata'', PDict [])],
              [(''user_id'', PInt 2), (''timestamp'', PStr ''t2''), (''metadata'', PDict [])]] \<lparr>pending = [], committed = []\<rparr>) = Inr 2"
    using insert_batch_result [of "\<lparr>executemany_raises = None, commit_raises = None\<rparr>"
        "[[(''user_id'', PInt 1), (''timestamp'', PStr ''t1''), (''metadata'', PDict [])],
              [(''user_id'', PInt 2), (''timestamp'', PStr ''t2''), (''metadata'', PDict [])]]" "\<lparr>pending = [], committed = []\<rparr>"]
    by (simp add: write_succeeds_def r del: rows_of.simps)
  have w2: "fst (insert_batch \<lparr>executemany_raises = None, commit_raises = Some (DatabaseError ''disk full'')\<rparr>
          [[(''user_id'', PInt 1), (''timestamp'', PStr ''t1''), (''metadata'', PDict [])],
              [(''user_id'', PInt 2), (''timestamp'', PStr ''t2''), (''metadata'', PDict [])]] \<lparr>pending = [], committed = []\<rparr>) = Inr 0"
    using insert_batch_result [of "\<lparr>executemany_raises = None, commit_raises = Some (DatabaseError ''disk full'')\<rparr>"
        "[[(''user_id'', PInt 1), (''timestamp'', PStr ''t1''), (''metadata'', PDict [])],
              [(''user_id'', PInt 2), (''timestamp'', PStr ''t2''), (''metadata'', PDict [])]]" "\<lparr>pending = [], committed = []\<rparr>"]
    by (simp add: write_succeeds_def r del: rows_of.simps)
  have w3: "fst (insert_batch \<lparr>executemany_raises = None, commit_raises = None\<rparr>
          [[(''user_id'', PInt 3)]] \<lparr>pending = [], committed = []\<rparr>) = Inr 0"
    using insert_batch_result [of "\<lparr>executemany_raises = None, commit_raises = None\<rparr>"
        "[[(''user_id'', PInt 3)]]" "\<lparr>pending = [], committed = []\<rparr>"]
    by (simp add: write_succeeds_def b del: rows_of.simps)
  have w4: "fst (insert_batch \<lparr>executemany_raises = None, commit_raises = None\<rparr>
          [] \<lparr>pending = [], committed = []\<rparr>) = Inr 0"
    using insert_batch_result [of "\<lparr>executemany_raises = None, commit_raises = None\<rparr>"
        "[]" "\<lparr>pending = [], committed = []\<rparr>"]
    by simp
  show ?thesis by (rule conjI [OF w1 conjI [OF w2 conjI [OF w3 w4]]])
qed

lemma raises_at_no_fault: "fault env = None \<Longrightarrow> raises_at p env = None"
  by (simp add: raises_at_def)

lemma should_process_nonempty:
  "should_process (deque_len q) t \<Longrightarrow> take (nat BATCH_SIZE) (items q) \<noteq> []"
  by (auto simp: should_process_def deque_len_def BATCH_SIZE_def)

lemma flush_no_fault:
  assumes w: "raises_at AtWrite env = None" and p: "raises_at AtReport env = None"
    and ne: "take (nat BATCH_SIZE) (items (queue (buffer s))) \<noteq> []"
    and ib: "insert_batch (replies env) (take (nat BATCH_SIZE) (items (queue (buffer s))))
               (database s) = (Inr k, db1)"
    and fl: "flush env qs t s = (r, s', tr)"
  shows "r = Inr ()
       \<and> buffer s' = (if 0 < k then mark_processed k (snd (get_batch BATCH_SIZE (buffer s)))
                      else snd (get_batch BATCH_SIZE (buffer s)))
       \<and> database s' = db1
       \<and> worker s' = (worker s)\<lparr>last_batch_time := t\<rparr>
       \<and> tr = [GetBatchCall BATCH_SIZE,
               InsertBatchCall (take (nat BATCH_SIZE) (items (queue (buffer s)))),
               if 0 < k then ReportProcessed k qs else ReportBatchFailed qs]"
  using fl ne ib
  by (auto simp: flush_def get_batch_take_drop w p Let_def)

lemma process_batch_flushes:
  assumes st: "raises_at AtStats env = None"
    and w: "raises_at AtWrite env = None" and p: "raises_at AtReport env = None"
    and sp: "should_process (deque_len (queue (buffer s))) (now env - last_batch_time (worker s))"
    and pb: "process_batch env s = (r, s', tr)"
  shows "r = Inr ()
       \<and> buffer s' =
           (if write_succeeds (replies env) (take (nat BATCH_SIZE) (items (queue (buffer s))))
            then mark_processed (int (length (take (nat BATCH_SIZE) (items (queue (buffer s))))))
                   (snd (get_batch BATCH_SIZE (buffer s)))
            else snd (get_batch BATCH_SIZE (buffer s)))
       \<and> worker s' = (worker s)\<lparr>last_batch_time := now env\<rparr>
       \<and> tr = [GetBatchCall BATCH_SIZE,
               InsertBatchCall (take (nat BATCH_SIZE) (items (queue (buffer s)))),
               if write_succeeds (replies env) (take (nat BATCH_SIZE) (items (queue (buffer s))))
               then ReportProcessed (int (length (take (nat BATCH_SIZE) (items (queue (buffer s))))))
                      (deque_len (queue (buffer s)))
               else ReportBatchFailed (deque_len (queue (buffer s)))]"
proof -
  let ?batch = "take (nat BATCH_SIZE) (items (queue (buffer s)))"
  let ?k = "if ?batch \<noteq> [] \<and> write_succeeds (replies env) ?batch
            then int (length ?batch) else 0"
  have ne: "?batch \<noteq> []" by (rule should_process_nonempty [OF sp])
  obtain db1 where ib: "insert_batch (replies env) ?batch (database s) = (Inr ?k, db1)"
    using insert_batch_eq [of "replies env" ?batch "database s"] by blast
  have fl: "flush env (deque_len (queue (buffer s))) (now env) s = (r, s', tr)"
    using pb sp by (simp add: process_batch_def st get_stats_def Let_def)
  note c = flush_no_fault [OF w p ne ib fl]
  have k: "(0 < ?k) = write_succeeds (replies env) ?batch"
    using ne by auto
  show ?thesis
    using c unfolding k using ne by (auto split: if_splits)
qed

text \<open>
  Claim C7. In a round that flushes and in which nothing raises, \<open>last_batch_time\<close>
  becomes the time read in this round whether the write succeeds or fails. When the
  write fails, \<^verbatim>\<open>insert_batch\<close> returning 0, the three counters are unchanged, the
  batch is not put back (the queue is what \<^verbatim>\<open>get_batch\<close> left of it) and the failure
  is reported; when it succeeds, \<open>total_processed\<close> grows by the size of the batch.
\<close>

theorem failed_write_flush:
  assumes "raises_at AtStats env = None"
    and "raises_at AtWrite env = None" and "raises_at AtReport env = None"
    and "should_process (deque_len (queue (buffer s))) (now env - last_batch_time (worker s))"
    and "process_batch env s = (r, s', tr)"
  shows "last_batch_time (worker s') = now env
       \<and> (\<not> write_succeeds (replies env) (take (nat BATCH_SIZE) (items (queue (buffer s)))) \<longrightarrow>
            r = Inr ()
          \<and> fst (insert_batch (replies env) (take (nat BATCH_SIZE) (items (queue (buffer s))))
                   (database s)) = Inr 0
          \<and> total_processed (buffer s') = total_processed (buffer s)
          \<and> total_received (buffer s') = total_received (buffer s)
          \<and> total_dropped (buffer s') = total_dropped (buffer s)
          \<and> items (queue (buffer s')) = drop (nat BATCH_SIZE) (items (queue (buffer s)))
          \<and> tr = [GetBatchCall BATCH_SIZE,
                  InsertBatchCall (take (nat BATCH_SIZE) (items (queue (buffer s)))),
                  ReportBatchFailed (deque_len (queue (buffer s)))])
       \<and> (write_succeeds (replies env) (take (nat BATCH_SIZE) (items (queue (buffer s)))) \<longrightarrow>
            total_processed (buffer s')
              = total_processed (buffer s)
                  + int (length (take (nat BATCH_SIZE) (items (queue (buffer s))))))"
proof -
  note c = process_batch_flushes [OF assms]
  have z: "\<not> write_succeeds (replies env) (take (nat BATCH_SIZE) (items (queue (buffer s)))) \<Longrightarrow>
      fst (insert_batch (replies env) (take (nat BATCH_SIZE) (items (queue (buffer s))))
                   (database s)) = Inr 0"
    by (simp add: insert_batch_fst)
  show ?thesis
    using c z by (auto simp: get_batch_take_drop mark_processed_def)
qed

theorem failed_write_flush_witness:
  "process_batch \<lparr>now = 2, replies = \<lparr>executemany_raises = None, commit_raises = Some (DatabaseError ''disk full'')\<rparr>,
          fault = None, stop_called = False\<rparr>
      \<lparr>buffer = \<lparr>queue = \<lparr>items = [[(''user_id'', PInt 1), (''timestamp'', PStr ''t1''), (''metadata'', PDict [])],
              [(''user_id'', PInt 2), (''timestamp'', PStr ''t2''), (''metadata'', PDict [])]], maxlen = 5\<rparr>,
            total_received = 2, total_processed = 0, total_dropped = 0\<rparr>,
          database = \<lparr>pending = [], committed = []\<rparr>,
          worker = \<lparr>running = True, last_batch_time = 0\<rparr>\<rparr>
    = (Inr (),
       \<lparr>buffer = \<lparr>queue = \<lparr>items = [], maxlen = 5\<rparr>,
            total_received = 2, total_processed = 0, total_dropped = 0\<rparr>,
          database = \<lparr>pending = [(PInt 1, PStr ''t1'', PDict []), (PInt 2, PStr ''t2'', PDict [])], committed = []\<rparr>,
          worker = \<lparr>running = True, last_batch_time = 2\<rparr>\<rparr>,
       [GetBatchCall BATCH_SIZE, InsertBatchCall [[(''user_id'', PInt 1), (''timestamp'', PStr ''t1''), (''metadata'', PDict [])],
              [(''user_id'', PInt 2), (''timestamp'', PStr ''t2''), (''metadata'', PDict [])]], ReportBatchFailed 2])
   \<and> \<not> write_succeeds \<lparr>executemany_raises = None, commit_raises = Some (DatabaseError ''disk full'')\<rparr>
          [[(''user_id'', PInt 1), (''timestamp'', PStr ''t1''), (''metadata'', PDict [])],
              [(''user_id'', PInt 2), (''timestamp'', PStr ''t2''), (''metadata'', PDict [])]]
   \<and> last_batch_time (worker \<lparr>buffer = \<lparr>queue = \<lparr>items = [], maxlen = 5\<rparr>,
            total_received = 2, total_processed = 0, total_dropped = 0\<rparr>,
          database = \<lparr>pending = [(PInt 1, PStr ''t1'', PDict []), (PInt 2, PStr ''t2'', PDict [])], committed = []\<rparr>,
          worker = \<lparr>running = True, last_batch_time = 2\<rparr>\<rparr>) = 2
   \<and> total_processed (buffer \<lparr>buffer = \<lparr>queue = \<lparr>items = [], maxlen = 5\<rparr>,
            total_received = 2, total_processed = 0, total_dropped = 0\<rparr>,
          database = \<lparr>pending = [(PInt 1, PStr ''t1'', PDict []), (PInt 2, PStr ''t2'', PDict [])], committed = []\<rparr>,
          worker = \<lparr>running = True, last_batch_time = 2\<rparr>\<rparr>) = 0
   \<and> process_batch \<lparr>now = 2, replies = \<lparr>executemany_raises = None, commit_raises = None\<rparr>,
          fault = None, stop_called = False\<rparr>
      \<lparr>buffer = \<lparr>queue = \<lparr>items = [[(''user_id'', PInt 1), (''timestamp'', PStr ''t1''), (''metadata'', PDict [])],
              [(''user_id'', PInt 2), (''timestamp'', PStr ''t2''), (''metadata'', PDict [])]], maxlen = 5\<rparr>,
            total_received = 2, total_processed = 0, total_dropped = 0\<rparr>,
          database = \<lparr>pending = [], committed = []\<rparr>,
          worker = \<lparr>running = True, last_batch_time = 0\<rparr>\<rparr>
    = (Inr (),
       \<lparr>buffer = \<lparr>queue = \<lparr>items = [], maxlen = 5\<rparr>,
            total_received = 2, total_processed = 2, total_dropped = 0\<rparr>,
          database = \<lparr>pending = [], committed = [(PInt 1, PStr ''t1'', PDict []), (PInt 2, PStr ''t2'', PDict [])]\<rparr>,
          worker = \<lparr>running = True, last_batch_time = 2\<rparr>\<rparr>,
       [GetBatchCall BATCH_SIZE, InsertBatchCall [[(''user_id'', PInt 1), (''timestamp'', PStr ''t1''), (''metadata'', PDict [])],
              [(''user_id'', PInt 2), (''timestamp'', PStr ''t2''), (''metadata'', PDict [])]], ReportProcessed 2 2])
   \<and> write_succeeds \<lparr>executemany_raises = None, commit_raises = None\<rparr>
          [[(''user_id'', PInt 1), (''timestamp'', PStr ''t1''), (''metadata'', PDict [])],
              [(''user_id'', PInt 2), (''timestamp'', PStr ''t2''), (''metadata'', PDict [])]]
   \<and> last_batch_time (worker \<lparr>buffer = \<lparr>queue = \<lparr>items = [], maxlen = 5\<rparr>,
            total_received = 2, total_processed = 2, total_dropped = 0\<rparr>,
          database = \<lparr>pending = [], committed = [(PInt 1, PStr ''t1'', PDict []), (PInt 2, PStr ''t2'', PDict [])]\<rparr>,
          worker = \<lparr>running = True, last_batch_time = 2\<rparr>\<rparr>) = 2
   \<and> total_processed (buffer \<lparr>buffer = \<lparr>queue = \<lparr>items = [], maxlen = 5\<rparr>,
            total_received = 2, total_processed = 2, total_dropped = 0\<rparr>,
          database = \<lparr>pending = [], committed = [(PInt 1, PStr ''t1'', PDict []), (PInt 2, PStr ''t2'', PDict [])]\<rparr>,
          worker = \<lparr>running = True, last_batch_time = 2\<rparr>\<rparr>) = 2"
proof -
  let ?env = "\<lparr>now = 2, replies = \<lparr>executemany_raises = None, commit_raises = Some (DatabaseError ''disk full'')\<rparr>,
          fault = None, stop_called = False\<rparr>"
  let ?s = "\<lparr>buffer = \<lparr>queue = \<lparr>items = [[(''user_id'', PInt 1), (''timestamp'', PStr ''t1''), (''metadata'', PDict [])],
              [(''user_id'', PInt 2), (''timestamp'', PStr ''t2''), (''metadata'', PDict [])]], maxlen = 5\<rparr>,
            total_received = 2, total_processed = 0, total_dropped = 0\<rparr>,
          database = \<lparr>pending = [], committed = []\<rparr>,
          worker = \<lparr>running = True, last_batch_time = 0\<rparr>\<rparr>"
  let ?s' = "\<lparr>buffer = \<lparr>queue = \<lparr>items = [], maxlen = 5\<rparr>,
            total_received = 2, total_processed = 0, total_dropped = 0\<rparr>,
          database = \<lparr>pending = [(PInt 1, PStr ''t1'', PDict []), (PInt 2, PStr ''t2'', PDict [])], committed = []\<rparr>,
          worker = \<lparr>running = True, last_batch_time = 2\<rparr>\<rparr>"
  have r: "rows_of [[(''user_id'', PInt 1), (''timestamp'', PStr ''t1''), (''metadata'', PDict [])],
              [(''user_id'', PInt 2), (''timestamp'', PStr ''t2''), (''metadata'', PDict [])]] = Inr [(PInt 1, PStr ''t1'', PDict []), (PInt 2, PStr ''t2'', PDict [])]"
    by (simp add: row_of_def subscript_def json_dumps_def)
  have f1: "raises_at AtStats ?env = None" by (simp add: raises_at_def)
  have f2: "raises_at AtWrite ?env = None" by (simp add: raises_at_def)
  have f3: "raises_at AtReport ?env = None" by (simp add: raises_at_def)
  have sp: "should_process (deque_len (queue (buffer ?s))) (now ?env - last_batch_time (worker ?s))"
    by (simp add: should_process_def deque_len_def BATCH_SIZE_def BATCH_TIMEOUT_def)
  have ib: "insert_batch \<lparr>executemany_raises = None, commit_raises = Some (DatabaseError ''disk full'')\<rparr> [[(''user_id'', PInt 1), (''timestamp'', PStr ''t1''), (''metadata'', PDict [])],
              [(''user_id'', PInt 2), (''timestamp'', PStr ''t2''), (''metadata'', PDict [])]] \<lparr>pending = [], committed = []\<rparr>
              = (Inr 0, \<lparr>pending = [(PInt 1, PStr ''t1'', PDict []), (PInt 2, PStr ''t2'', PDict [])], committed = []\<rparr>)"
    by (simp add: insert_batch_def insert_batch_try_def r executemany_def commit_def
        del: rows_of.simps)
  have pb: "process_batch ?env ?s = (Inr (), ?s', [GetBatchCall BATCH_SIZE, InsertBatchCall [[(''user_id'', PInt 1), (''timestamp'', PStr ''t1''), (''metadata'', PDict [])],
              [(''user_id'', PInt 2), (''timestamp'', PStr ''t2''), (''metadata'', PDict [])]], ReportBatchFailed 2])"
    by (simp add: process_batch_def flush_def f1 f2 f3 get_stats_def deque_len_def
        should_process_def BATCH_SIZE_def BATCH_TIMEOUT_def get_batch_take_drop ib)
  have nw: "\<not> write_succeeds \<lparr>executemany_raises = None, commit_raises = Some (DatabaseError ''disk full'')\<rparr> [[(''user_id'', PInt 1), (''timestamp'', PStr ''t1''), (''metadata'', PDict [])],
              [(''user_id'', PInt 2), (''timestamp'', PStr ''t2''), (''metadata'', PDict [])]]"
    by (simp add: write_succeeds_def del: rows_of.simps)
  have c: "last_batch_time (worker ?s') = 2 \<and> total_processed (buffer ?s') = 0"
    using failed_write_flush [OF f1 f2 f3 sp pb] nw by simp
  let ?good = "\<lparr>now = 2, replies = \<lparr>executemany_raises = None, commit_raises = None\<rparr>,
          fault = None, stop_called = False\<rparr>"
  let ?done = "\<lparr>buffer = \<lparr>queue = \<lparr>items = [], maxlen = 5\<rparr>,
            total_received = 2, total_processed = 2, total_dropped = 0\<rparr>,
          database = \<lparr>pending = [], committed = [(PInt 1, PStr ''t1'', PDict []), (PInt 2, PStr ''t2'', PDict [])]\<rparr>,
          worker = \<lparr>running = True, last_batch_time = 2\<rparr>\<rparr>"
  have g1: "raises_at AtStats ?good = None" by (simp add: raises_at_def)
  have g2: "raises_at AtWrite ?good = None" by (simp add: raises_at_def)
  have g3: "raises_at AtReport ?good = None" by (simp add: raises_at_def)
  have sg: "should_process (deque_len (queue (buffer ?s))) (now ?good - last_batch_time (worker ?s))"
    by (simp add: should_process_def deque_len_def BATCH_SIZE_def BATCH_TIMEOUT_def)
  have ig: "insert_batch \<lparr>executemany_raises = None, commit_raises = None\<rparr> [[(''user_id'', PInt 1), (''timestamp'', PStr ''t1''), (''metadata'', PDict [])],
              [(''user_id'', PInt 2), (''timestamp'', PStr ''t2''), (''metadata'', PDict [])]] \<lparr>pending = [], committed = []\<rparr>
              = (Inr 2, \<lparr>pending = [], committed = [(PInt 1, PStr ''t1'', PDict []), (PInt 2, PStr ''t2'', PDict [])]\<rparr>)"
    by (simp add: insert_batch_def insert_batch_try_def r executemany_def commit_def
        del: rows_of.simps)
  have pg: "process_batch ?good ?s = (Inr (), ?done, [GetBatchCall BATCH_SIZE, InsertBatchCall [[(''user_id'', PInt 1), (''timestamp'', PStr ''t1''), (''metadata'', PDict [])],
              [(''user_id'', PInt 2), (''timestamp'', PStr ''t2''), (''metadata'', PDict [])]], ReportProcessed 2 2])"
    by (simp add: process_batch_def flush_def g1 g2 g3 get_stats_def deque_len_def
        should_process_def BATCH_SIZE_def BATCH_TIMEOUT_def get_batch_take_drop ig
        mark_processed_def)
  have ws: "write_succeeds \<lparr>executemany_raises = None, commit_raises = None\<rparr> [[(''user_id'', PInt 1), (''timestamp'', PStr ''t1''), (''metadata'', PDict [])],
              [(''user_id'', PInt 2), (''timestamp'', PStr ''t2''), (''metadata'', PDict [])]]"
    by (simp add: write_succeeds_def r del: rows_of.simps)
  have d: "last_batch_time (worker ?done) = 2 \<and> total_processed (buffer ?done) = 2"
    using failed_write_flush [OF g1 g2 g3 sg pg] ws by simp
  show ?thesis
    by (rule conjI [OF pb conjI [OF nw conjI [OF conjunct1 [OF c] conjI [OF conjunct2 [OF c]
          conjI [OF pg conjI [OF ws d]]]]]])
qed

lemma process_batch_trace:
  assumes st: "raises_at AtStats env = None"
    and pb: "process_batch env s = (r, s', tr)"
  shows "(GetBatchCall BATCH_SIZE \<in> set tr)
           = should_process (deque_len (queue (buffer s))) (now env - last_batch_time (worker s))
       \<and> (\<forall>n. GetBatchCall n \<in> set tr \<longrightarrow> n = BATCH_SIZE)
       \<and> (\<forall>evs. InsertBatchCall evs \<in> set tr \<longrightarrow>
             evs = take (nat BATCH_SIZE) (items (queue (buffer s))))
       \<and> items (queue (buffer s'))
           = (if should_process (deque_len (queue (buffer s))) (now env - last_batch_time (worker s))
              then drop (nat BATCH_SIZE) (items (queue (buffer s)))
              else items (queue (buffer s)))"
proof (cases "should_process (deque_len (queue (buffer s))) (now env - last_batch_time (worker s))")
  case False
  then have "s' = s" "tr = []"
    using pb by (simp_all add: process_batch_def st get_stats_def Let_def)
  then show ?thesis using False by simp
next
  case True
  then have fl: "flush env (deque_len (queue (buffer s))) (now env) s = (r, s', tr)"
    using pb by (simp add: process_batch_def st get_stats_def Let_def)
  show ?thesis
    using fl True
    by (auto simp: flush_def get_batch_take_drop Let_def mark_processed_def
        split: if_splits option.splits prod.splits sum.splits)
qed

lemma worker_round_trace:
  assumes "worker_round env s = (s', tr)"
  shows "\<exists>r s1 tr1 extra. process_batch env s = (r, s1, tr1) \<and> buffer s' = buffer s1
           \<and> tr = tr1 @ extra
           \<and> (\<forall>n. GetBatchCall n \<notin> set extra) \<and> (\<forall>evs. InsertBatchCall evs \<notin> set extra)"
proof -
  obtain r s1 tr1 where pb: "process_batch env s = (r, s1, tr1)"
    by (cases "process_batch env s") auto
  show ?thesis
    using assms pb
    by (auto simp: worker_round_def round_body_def stop_def Let_def
        split: sum.splits option.splits prod.splits if_splits)
qed

text \<open>
  Claim C4. A round of the polling loop in which reading the statistics does not raise
  calls \<^verbatim>\<open>get_batch\<close> exactly when the queue holds at least \<^verbatim>\<open>BATCH_SIZE\<close> events, or
  holds an event and at least \<^verbatim>\<open>BATCH_TIMEOUT\<close> has passed since \<open>last_batch_time\<close>.
  The call asks for \<^verbatim>\<open>BATCH_SIZE\<close> events: what is written is the first \<^verbatim>\<open>BATCH_SIZE\<close>
  events of the queue, never more than \<^verbatim>\<open>BATCH_SIZE\<close> of them, and the rest of the
  queue stays in place.
\<close>

theorem flush_trigger:
  assumes st: "raises_at AtStats env = None"
    and wr: "worker_round env s = (s', tr)"
  shows "(GetBatchCall BATCH_SIZE \<in> set tr)
           = (BATCH_SIZE \<le> deque_len (queue (buffer s))
              \<or> (0 < deque_len (queue (buffer s))
                  \<and> BATCH_TIMEOUT \<le> now env - last_batch_time (worker s)))
       \<and> (\<forall>n. GetBatchCall n \<in> set tr \<longrightarrow> n = BATCH_SIZE)
       \<and> (\<forall>evs. InsertBatchCall evs \<in> set tr \<longrightarrow>
             evs = take (nat BATCH_SIZE) (items (queue (buffer s)))
             \<and> int (length evs) \<le> BATCH_SIZE)
       \<and> items (queue (buffer s'))
           = (if GetBatchCall BATCH_SIZE \<in> set tr
              then drop (nat BATCH_SIZE) (items (queue (buffer s)))
              else items (queue (buffer s)))
       \<and> deque_len (queue (buffer s)) - deque_len (queue (buffer s')) \<le> BATCH_SIZE"
proof -
  obtain r s1 tr1 extra where pb: "process_batch env s = (r, s1, tr1)"
    and b: "buffer s' = buffer s1" and t: "tr = tr1 @ extra"
    and g: "\<forall>n. GetBatchCall n \<notin> set extra" and i: "\<forall>evs. InsertBatchCall evs \<notin> set extra"
    using worker_round_trace [OF wr] by blast
  note c = process_batch_trace [OF st pb]
  have l: "int (length (take (nat BATCH_SIZE) (items (queue (buffer s))))) \<le> BATCH_SIZE"
    by (simp add: BATCH_SIZE_def)
  have d: "deque_len (queue (buffer s))
             - int (length (drop (nat BATCH_SIZE) (items (queue (buffer s))))) \<le> BATCH_SIZE"
    by (simp add: deque_len_def BATCH_SIZE_def)
  have n: "0 \<le> BATCH_SIZE" by (simp add: BATCH_SIZE_def)
  show ?thesis
    using c g i l d n unfolding t b should_process_def deque_len_def by auto
qed

theorem flush_trigger_witness:
  "worker_round \<lparr>now = 2, replies = \<lparr>executemany_raises = None, commit_raises = None\<rparr>,
          fault = None, stop_called = False\<rparr>
      \<lparr>buffer = \<lparr>queue = \<lparr>items = [[(''user_id'', PInt 1), (''timestamp'', PStr ''t1''), (''metadata'', PDict [])],
              [(''user_id'', PInt 2), (''timestamp'', PStr ''t2''), (''metadata'', PDict [])]], maxlen = 5\<rparr>,
            total_received = 2, total_processed = 0, total_dropped = 0\<rparr>,
          database = \<lparr>pending = [], committed = []\<rparr>,
          worker = \<lparr>running = True, last_batch_time = 0\<rparr>\<rparr>
    = (\<lparr>buffer = \<lparr>queue = \<lparr>items = [], maxlen = 5\<rparr>,
            total_received = 2, total_processed = 2, total_dropped = 0\<rparr>,
          database = \<lparr>pending = [], committed = [(PInt 1, PStr ''t1'', PDict []), (PInt 2, PStr ''t2'', PDict [])]\<rparr>,
          worker = \<lparr>running = True, last_batch_time = 2\<rparr>\<rparr>,
       [GetBatchCall BATCH_SIZE, InsertBatchCall [[(''user_id'', PInt 1), (''timestamp'', PStr ''t1''), (''metadata'', PDict [])],
              [(''user_id'', PInt 2), (''timestamp'', PStr ''t2''), (''metadata'', PDict [])]], ReportProcessed 2 2, SleepCall WORKER_SLEEP])
   \<and> worker_round \<lparr>now = 1 / 2, replies = \<lparr>executemany_raises = None, commit_raises = None\<rparr>,
          fault = None, stop_called = False\<rparr>
      \<lparr>buffer = \<lparr>queue = \<lparr>items = [[(''user_id'', PInt 1), (''timestamp'', PStr ''t1''), (''metadata'', PDict [])],
              [(''user_id'', PInt 2), (''timestamp'', PStr ''t2''), (''metadata'', PDict [])]], maxlen = 5\<rparr>,
            total_received = 2, total_processed = 0, total_dropped = 0\<rparr>,
          database = \<lparr>pending = [], committed = []\<rparr>,
          worker = \<lparr>running = True, last_batch_time = 0\<rparr>\<rparr>
    = (\<lparr>buffer = \<lparr>queue = \<lparr>items = [[(''user_id'', PInt 1), (''timestamp'', PStr ''t1''), (''metadata'', PDict [])],
              [(''user_id'', PInt 2), (''timestamp'', PStr ''t2''), (''metadata'', PDict [])]], maxlen = 5\<rparr>,
            total_received = 2, total_processed = 0, total_dropped = 0\<rparr>,
          database = \<lparr>pending = [], committed = []\<rparr>,
          worker = \<lparr>running = True, last_batch_time = 0\<rparr>\<rparr>,
       [SleepCall WORKER_SLEEP])
   \<and> GetBatchCall BATCH_SIZE \<in> set (snd (worker_round \<lparr>now = 0, replies = \<lparr>executemany_raises = None, commit_raises = None\<rparr>,
          fault = None, stop_called = False\<rparr>
        \<lparr>buffer = \<lparr>queue = \<lparr>items = replicate 150 [], maxlen = nat MAX_QUEUE_SIZE\<rparr>,
            total_received = 150, total_processed = 0, total_dropped = 0\<rparr>,
          database = \<lparr>pending = [], committed = []\<rparr>,
          worker = \<lparr>running = True, last_batch_time = 0\<rparr>\<rparr>))
   \<and> length (items (queue (buffer (fst (worker_round \<lparr>now = 0, replies = \<lparr>executemany_raises = None, commit_raises = None\<rparr>,
          fault = None, stop_called = False\<rparr>
        \<lparr>buffer = \<lparr>queue = \<lparr>items = replicate 150 [], maxlen = nat MAX_QUEUE_SIZE\<rparr>,
            total_received = 150, total_processed = 0, total_dropped = 0\<rparr>,
          database = \<lparr>pending = [], committed = []\<rparr>,
          worker = \<lparr>running = True, last_batch_time = 0\<rparr>\<rparr>))))) = 50"
proof -
  let ?env = "\<lparr>now = 2, replies = \<lparr>executemany_raises = None, commit_raises = None\<rparr>,
          fault = None, stop_called = False\<rparr>"
  let ?early = "\<lparr>now = 1 / 2, replies = \<lparr>executemany_raises = None, commit_raises = None\<rparr>,
          fault = None, stop_called = False\<rparr>"
  let ?zero = "\<lparr>now = 0, replies = \<lparr>executemany_raises = None, commit_raises = None\<rparr>,
          fault = None, stop_called = False\<rparr>"
  let ?s = "\<lparr>buffer = \<lparr>queue = \<lparr>items = [[(''user_id'', PInt 1), (''timestamp'', PStr ''t1''), (''metadata'', PDict [])],
              [(''user_id'', PInt 2), (''timestamp'', PStr ''t2''), (''metadata'', PDict [])]], maxlen = 5\<rparr>,
            total_received = 2, total_processed = 0, total_dropped = 0\<rparr>,
          database = \<lparr>pending = [], committed = []\<rparr>,
          worker = \<lparr>running = True, last_batch_time = 0\<rparr>\<rparr>"
  let ?s' = "\<lparr>buffer = \<lparr>queue = \<lparr>items = [], maxlen = 5\<rparr>,
            total_received = 2, total_processed = 2, total_dropped = 0\<rparr>,
          database = \<lparr>pending = [], committed = [(PInt 1, PStr ''t1'', PDict []), (PInt 2, PStr ''t2'', PDict [])]\<rparr>,
          worker = \<lparr>running = True, last_batch_time = 2\<rparr>\<rparr>"
  let ?big = "\<lparr>buffer = \<lparr>queue = \<lparr>items = replicate 150 [], maxlen = nat MAX_QUEUE_SIZE\<rparr>,
            total_received = 150, total_processed = 0, total_dropped = 0\<rparr>,
          database = \<lparr>pending = [], committed = []\<rparr>,
          worker = \<lparr>running = True, last_batch_time = 0\<rparr>\<rparr>"
  have r: "rows_of [[(''user_id'', PInt 1), (''timestamp'', PStr ''t1''), (''metadata'', PDict [])],
              [(''user_id'', PInt 2), (''timestamp'', PStr ''t2''), (''metadata'', PDict [])]] = Inr [(PInt 1, PStr ''t1'', PDict []), (PInt 2, PStr ''t2'', PDict [])]"
    by (simp add: row_of_def subscript_def json_dumps_def)
  have f1: "raises_at p ?env = None" for p by (simp add: raises_at_def)
  have f2: "raises_at p ?early = None" for p by (simp add: raises_at_def)
  have f3: "raises_at p ?zero = None" for p by (simp add: raises_at_def)
  have ib: "insert_batch \<lparr>executemany_raises = None, commit_raises = None\<rparr> [[(''user_id'', PInt 1), (''timestamp'', PStr ''t1''), (''metadata'', PDict [])],
              [(''user_id'', PInt 2), (''timestamp'', PStr ''t2''), (''metadata'', PDict [])]] \<lparr>pending = [], committed = []\<rparr>
              = (Inr 2, \<lparr>pending = [], committed = [(PInt 1, PStr ''t1'', PDict []), (PInt 2, PStr ''t2'', PDict [])]\<rparr>)"
    by (simp add: insert_batch_def insert_batch_try_def r executemany_def commit_def
        del: rows_of.simps)
  have pb: "process_batch ?env ?s = (Inr (), ?s',
       [GetBatchCall BATCH_SIZE, InsertBatchCall [[(''user_id'', PInt 1), (''timestamp'', PStr ''t1''), (''metadata'', PDict [])],
              [(''user_id'', PInt 2), (''timestamp'', PStr ''t2''), (''metadata'', PDict [])]], ReportProcessed 2 2])"
    by (simp add: process_batch_def flush_def f1 get_stats_def deque_len_def
        should_process_def BATCH_SIZE_def BATCH_TIMEOUT_def get_batch_take_drop ib
        mark_processed_def)
  have w1: "worker_round ?env ?s = (?s', [GetBatchCall BATCH_SIZE, InsertBatchCall [[(''user_id'', PInt 1), (''timestamp'', PStr ''t1''), (''metadata'', PDict [])],
              [(''user_id'', PInt 2), (''timestamp'', PStr ''t2''), (''metadata'', PDict [])]], ReportProcessed 2 2, SleepCall WORKER_SLEEP])"
    by (simp add: worker_round_def round_body_def pb f1)
  have pe: "process_batch ?early ?s = (Inr (), ?s, [])"
    by (simp add: process_batch_def f2 get_stats_def deque_len_def
        should_process_def BATCH_SIZE_def BATCH_TIMEOUT_def)
  have w2: "worker_round ?early ?s = (?s, [SleepCall WORKER_SLEEP])"
    by (simp add: worker_round_def round_body_def pe f2)
  have c1: "GetBatchCall BATCH_SIZE \<in> set ([GetBatchCall BATCH_SIZE, InsertBatchCall [[(''user_id'', PInt 1), (''timestamp'', PStr ''t1''), (''metadata'', PDict [])],
              [(''user_id'', PInt 2), (''timestamp'', PStr ''t2''), (''metadata'', PDict [])]], ReportProcessed 2 2, SleepCall WORKER_SLEEP])"
    using flush_trigger [OF f1 w1] by (simp add: deque_len_def BATCH_SIZE_def BATCH_TIMEOUT_def)
  have c2: "GetBatchCall BATCH_SIZE \<notin> set [SleepCall WORKER_SLEEP]"
    using flush_trigger [OF f2 w2] by (simp add: deque_len_def BATCH_SIZE_def BATCH_TIMEOUT_def)
  have w3: "worker_round ?zero ?big = (fst (worker_round ?zero ?big), snd (worker_round ?zero ?big))"
    by simp
  have l: "deque_len (queue (buffer ?big)) = 150" by (simp add: deque_len_def)
  have i: "items (queue (buffer ?big)) = replicate 150 []" by simp
  have n: "now ?zero - last_batch_time (worker ?big) = 0" by simp
  note t = flush_trigger [OF f3 w3]
  have g: "GetBatchCall BATCH_SIZE \<in> set (snd (worker_round ?zero ?big))"
    using conjunct1 [OF t] unfolding l n by (simp add: BATCH_SIZE_def)
  have q: "items (queue (buffer (fst (worker_round ?zero ?big))))
             = drop (nat BATCH_SIZE) (replicate 150 [])"
    using conjunct1 [OF conjunct2 [OF conjunct2 [OF conjunct2 [OF t]]]] g unfolding i by simp
  have d: "length (items (queue (buffer (fst (worker_round ?zero ?big))))) = 50"
    unfolding q by (simp add: BATCH_SIZE_def)
  show ?thesis by (rule conjI [OF w1 conjI [OF w2 conjI [OF g d]]])
qed

lemma start_loop_stopped: "\<not> running (worker s) \<Longrightarrow> start_loop envs s = (True, s, [])"
  by (subst start_loop.simps) simp

lemma start_loop_Nil: "running (worker s) \<Longrightarrow> start_loop [] s = (False, s, [])"
  by (subst start_loop.simps) simp

lemma start_loop_Cons:
  "running (worker s) \<Longrightarrow>
     start_loop (env # envs) s =
       (case start_loop envs (fst (worker_round env s)) of
          (left, s2, tr2) \<Rightarrow> (left, s2, snd (worker_round env s) @ tr2))"
  by (subst start_loop.simps) (simp add: split_beta)

lemma flush_worker:
  "flush env qs t s = (r, s1, tr) \<Longrightarrow> running (worker s1) = running (worker s)"
  by (auto simp: flush_def get_batch_take_drop Let_def
      split: if_splits option.splits prod.splits sum.splits)

lemma process_batch_worker:
  "process_batch env s = (r, s1, tr) \<Longrightarrow> running (worker s1) = running (worker s)"
  by (auto simp: process_batch_def Let_def flush_worker split: option.splits if_splits)

lemma round_body_worker:
  "round_body env s = (r, s1, tr) \<Longrightarrow> running (worker s1) = running (worker s)"
  by (auto simp: round_body_def process_batch_worker split: option.splits prod.splits sum.splits)

lemma worker_round_raised:
  "round_body env s = (Inl e, s1, tr) \<Longrightarrow>
     worker_round env s
       = (if stop_called env then stop s1 else s1, tr @ [ReportWorkerError e, SleepCall 1])"
  by (simp add: worker_round_def)

lemma worker_round_flushes:
  assumes nf: "fault env = None"
    and sp: "should_process (deque_len (queue (buffer s))) (now env - last_batch_time (worker s))"
    and ws: "write_succeeds (replies env) (take (nat BATCH_SIZE) (items (queue (buffer s))))"
  shows "total_processed (buffer (fst (worker_round env s)))
           = total_processed (buffer s)
               + int (length (take (nat BATCH_SIZE) (items (queue (buffer s)))))
       \<and> snd (worker_round env s)
           = [GetBatchCall BATCH_SIZE,
              InsertBatchCall (take (nat BATCH_SIZE) (items (queue (buffer s)))),
              ReportProcessed (int (length (take (nat BATCH_SIZE) (items (queue (buffer s))))))
                (deque_len (queue (buffer s))),
              SleepCall WORKER_SLEEP]"
proof -
  obtain r s1 tr where pb: "process_batch env s = (r, s1, tr)"
    by (cases "process_batch env s") auto
  note c = process_batch_flushes [OF raises_at_no_fault [OF nf] raises_at_no_fault [OF nf]
      raises_at_no_fault [OF nf] sp pb]
  have r: "r = Inr ()" using c by simp
  have rb: "round_body env s = (Inr (), s1, tr @ [SleepCall WORKER_SLEEP])"
    by (simp add: round_body_def pb r raises_at_no_fault [OF nf])
  have wr: "worker_round env s = (if stop_called env then stop s1 else s1, tr @ [SleepCall WORKER_SLEEP])"
    by (simp add: worker_round_def rb)
  show ?thesis
    unfolding wr using c ws
    by (auto simp: stop_def mark_processed_def get_batch_take_drop)
qed

lemma worker_round_running:
  "running (worker (fst (worker_round env s))) = (running (worker s) \<and> \<not> stop_called env)"
proof -
  obtain r s1 tr where rb: "round_body env s = (r, s1, tr)"
    by (cases "round_body env s") auto
  have "running (worker s1) = running (worker s)" by (rule round_body_worker [OF rb])
  then show ?thesis
    by (cases r) (simp_all add: worker_round_def rb stop_def)
qed

lemma start_loop_left:
  "running (worker s) \<Longrightarrow> fst (start_loop envs s) \<Longrightarrow> list_ex stop_called envs"
proof (induction envs arbitrary: s)
  case Nil
  then show ?case by (simp add: start_loop_Nil)
next
  case (Cons env envs)
  show ?case
  proof (cases "stop_called env")
    case True
    then show ?thesis by simp
  next
    case False
    have r: "running (worker (fst (worker_round env s)))"
      using Cons.prems(1) False by (simp add: worker_round_running)
    have "fst (start_loop envs (fst (worker_round env s)))"
      using Cons.prems(2) unfolding start_loop_Cons [OF Cons.prems(1)] by (simp add: split_beta)
    then show ?thesis using Cons.IH [OF r] by simp
  qed
qed

text \<open>
  Claim C8. When the body of a round raises in a running worker, the handler reports
  the exception and sleeps for one second; the worker is still running, and the loop
  goes on with the next round unless \<^verbatim>\<open>stop()\<close> was called in the meantime. The loop
  is left only after a call of \<^verbatim>\<open>stop()\<close>. A following round in which nothing raises,
  a flush is due and the write succeeds processes its batch.
\<close>

theorem worker_loop_survives:
  assumes run: "running (worker s)"
    and rb: "round_body env s = (Inl e, s1, tr)"
  shows "worker_round env s
           = (if stop_called env then stop s1 else s1, tr @ [ReportWorkerError e, SleepCall 1])
       \<and> running (worker s1)
       \<and> start_loop (env # envs) s
           = (case start_loop envs (if stop_called env then stop s1 else s1) of
                (left, s2, tr2) \<Rightarrow> (left, s2, tr @ [ReportWorkerError e, SleepCall 1] @ tr2))
       \<and> (fst (start_loop (env # envs) s) \<longrightarrow> list_ex stop_called (env # envs))
       \<and> (\<not> stop_called env \<and> fault env2 = None
            \<and> should_process (deque_len (queue (buffer s1)))
                 (now env2 - last_batch_time (worker s1))
            \<and> write_succeeds (replies env2) (take (nat BATCH_SIZE) (items (queue (buffer s1))))
          \<longrightarrow> total_processed (buffer (fst (snd (start_loop [env, env2] s))))
                = total_processed (buffer s1)
                    + int (length (take (nat BATCH_SIZE) (items (queue (buffer s1)))))
              \<and> snd (snd (start_loop [env, env2] s))
                = tr @ [ReportWorkerError e, SleepCall 1,
                        GetBatchCall BATCH_SIZE,
                        InsertBatchCall (take (nat BATCH_SIZE) (items (queue (buffer s1)))),
                        ReportProcessed
                          (int (length (take (nat BATCH_SIZE) (items (queue (buffer s1))))))
                          (deque_len (queue (buffer s1))),
                        SleepCall WORKER_SLEEP])"
proof -
  note wr = worker_round_raised [OF rb]
  have r1: "running (worker s1)" using round_body_worker [OF rb] run by simp
  have a: "start_loop (env # envs) s
           = (case start_loop envs (if stop_called env then stop s1 else s1) of
                (left, s2, tr2) \<Rightarrow> (left, s2, tr @ [ReportWorkerError e, SleepCall 1] @ tr2))"
    unfolding start_loop_Cons [OF run] wr by simp
  have b: "total_processed (buffer (fst (snd (start_loop [env, env2] s))))
                = total_processed (buffer s1)
                    + int (length (take (nat BATCH_SIZE) (items (queue (buffer s1)))))
              \<and> snd (snd (start_loop [env, env2] s))
                = tr @ [ReportWorkerError e, SleepCall 1,
                        GetBatchCall BATCH_SIZE,
                        InsertBatchCall (take (nat BATCH_SIZE) (items (queue (buffer s1)))),
                        ReportProcessed
                          (int (length (take (nat BATCH_SIZE) (items (queue (buffer s1))))))
                          (deque_len (queue (buffer s1))),
                        SleepCall WORKER_SLEEP]"
    if ns: "\<not> stop_called env" and nf: "fault env2 = None"
      and sp: "should_process (deque_len (queue (buffer s1)))
                 (now env2 - last_batch_time (worker s1))"
      and ws: "write_succeeds (replies env2) (take (nat BATCH_SIZE) (items (queue (buffer s1))))"
  proof -
    note f = worker_round_flushes [OF nf sp ws]
    have l1: "start_loop [env, env2] s
           = (case start_loop [env2] s1 of
                (left, s2, tr2) \<Rightarrow> (left, s2, tr @ [ReportWorkerError e, SleepCall 1] @ tr2))"
      unfolding start_loop_Cons [OF run] wr using ns by simp
    have l2: "start_loop [env2] s1
           = (case start_loop [] (fst (worker_round env2 s1)) of
                (left, s2, tr2) \<Rightarrow> (left, s2, snd (worker_round env2 s1) @ tr2))"
      by (rule start_loop_Cons [OF r1])
    have l3: "fst (snd (start_loop [] s3)) = s3 \<and> snd (snd (start_loop [] s3)) = []" for s3
      by (cases "running (worker s3)") (simp_all add: start_loop_stopped start_loop_Nil)
    show ?thesis
      unfolding l1 l2 using f l3 [of "fst (worker_round env2 s1)"]
      by (simp add: split_beta)
  qed
  have c: "fst (start_loop (env # envs) s) \<longrightarrow> list_ex stop_called (env # envs)"
    using start_loop_left [OF run, of "env # envs"] by blast
  show ?thesis using wr r1 a b c by blast
qed

theorem worker_loop_survives_witness:
  "round_body \<lparr>now = 2, replies = \<lparr>executemany_raises = None, commit_raises = None\<rparr>,
          fault = Some (AtStats, RuntimeError ''boom''), stop_called = False\<rparr>
      \<lparr>buffer = \<lparr>queue = \<lparr>items = [[(''user_id'', PInt 1), (''timestamp'', PStr ''t1''), (''metadata'', PDict [])],
              [(''user_id'', PInt 2), (''timestamp'', PStr ''t2''), (''metadata'', PDict [])]], maxlen = 5\<rparr>,
            total_received = 2, total_processed = 0, total_dropped = 0\<rparr>,
          database = \<lparr>pending = [], committed = []\<rparr>,
          worker = \<lparr>running = True, last_batch_time = 0\<rparr>\<rparr>
    = (Inl (RuntimeError ''boom''),
       \<lparr>buffer = \<lparr>queue = \<lparr>items = [[(''user_id'', PInt 1), (''timestamp'', PStr ''t1''), (''metadata'', PDict [])],
              [(''user_id'', PInt 2), (''timestamp'', PStr ''t2''), (''metadata'', PDict [])]], maxlen = 5\<rparr>,
            total_received = 2, total_processed = 0, total_dropped = 0\<rparr>,
          database = \<lparr>pending = [], committed = []\<rparr>,
          worker = \<lparr>running = True, last_batch_time = 0\<rparr>\<rparr>,
       [])
   \<and> worker_round \<lparr>now = 2, replies = \<lparr>executemany_raises = None, commit_raises = None\<rparr>,
          fault = Some (AtStats, RuntimeError ''boom''), stop_called = False\<rparr>
      \<lparr>buffer = \<lparr>queue = \<lparr>items = [[(''user_id'', PInt 1), (''timestamp'', PStr ''t1''), (''metadata'', PDict [])],
              [(''user_id'', PInt 2), (''timestamp'', PStr ''t2''), (''metadata'', PDict [])]], maxlen = 5\<rparr>,
            total_received = 2, total_processed = 0, total_dropped = 0\<rparr>,
          database = \<lparr>pending = [], committed = []\<rparr>,
          worker = \<lparr>running = True, last_batch_time = 0\<rparr>\<rparr>
    = (\<lparr>buffer = \<lparr>queue = \<lparr>items = [[(''user_id'', PInt 1), (''timestamp'', PStr ''t1''), (''metadata'', PDict [])],
              [(''user_id'', PInt 2), (''timestamp'', PStr ''t2''), (''metadata'', PDict [])]], maxlen = 5\<rparr>,
            total_received = 2, total_processed = 0, total_dropped = 0\<rparr>,
          database = \<lparr>pending = [], committed = []\<rparr>,
          worker = \<lparr>running = True, last_batch_time = 0\<rparr>\<rparr>,
       [ReportWorkerError (RuntimeError ''boom''), SleepCall 1])
   \<and> \<not> fst (start_loop
        [\<lparr>now = 2, replies = \<lparr>executemany_raises = None, commit_raises = None\<rparr>,
          fault = Some (AtStats, RuntimeError ''boom''), stop_called = False\<rparr>,
         \<lparr>now = 2, replies = \<lparr>executemany_raises = None, commit_raises = None\<rparr>,
          fault = None, stop_called = False\<rparr>]
        \<lparr>buffer = \<lparr>queue = \<lparr>items = [[(''user_id'', PInt 1), (''timestamp'', PStr ''t1''), (''metadata'', PDict [])],
              [(''user_id'', PInt 2), (''timestamp'', PStr ''t2''), (''metadata'', PDict [])]], maxlen = 5\<rparr>,
            total_received = 2, total_processed = 0, total_dropped = 0\<rparr>,
          database = \<lparr>pending = [], committed = []\<rparr>,
          worker = \<lparr>running = True, last_batch_time = 0\<rparr>\<rparr>)
   \<and> total_processed (buffer (fst (snd (start_loop
        [\<lparr>now = 2, replies = \<lparr>executemany_raises = None, commit_raises = None\<rparr>,
          fault = Some (AtStats, RuntimeError ''boom''), stop_called = False\<rparr>,
         \<lparr>now = 2, replies = \<lparr>executemany_raises = None, commit_raises = None\<rparr>,
          fault = None, stop_called = False\<rparr>]
        \<lparr>buffer = \<lparr>queue = \<lparr>items = [[(''user_id'', PInt 1), (''timestamp'', PStr ''t1''), (''metadata'', PDict [])],
              [(''user_id'', PInt 2), (''timestamp'', PStr ''t2''), (''metadata'', PDict [])]], maxlen = 5\<rparr>,
            total_received = 2, total_processed = 0, total_dropped = 0\<rparr>,
          database = \<lparr>pending = [], committed = []\<rparr>,
          worker = \<lparr>running = True, last_batch_time = 0\<rparr>\<rparr>)))) = 2
   \<and> snd (snd (start_loop
        [\<lparr>now = 2, replies = \<lparr>executemany_raises = None, commit_raises = None\<rparr>,
          fault = Some (AtStats, RuntimeError ''boom''), stop_called = False\<rparr>,
         \<lparr>now = 2, replies = \<lparr>executemany_raises = None, commit_raises = None\<rparr>,
          fault = None, stop_called = False\<rparr>]
        \<lparr>buffer = \<lparr>queue = \<lparr>items = [[(''user_id'', PInt 1), (''timestamp'', PStr ''t1''), (''metadata'', PDict [])],
              [(''user_id'', PInt 2), (''timestamp'', PStr ''t2''), (''metadata'', PDict [])]], maxlen = 5\<rparr>,
            total_received = 2, total_processed = 0, total_dropped = 0\<rparr>,
          database = \<lparr>pending = [], committed = []\<rparr>,
          worker = \<lparr>running = True, last_batch_time = 0\<rparr>\<rparr>))
     = [ReportWorkerError (RuntimeError ''boom''), SleepCall 1, GetBatchCall BATCH_SIZE, InsertBatchCall [[(''user_id'', PInt 1), (''timestamp'', PStr ''t1''), (''metadata'', PDict [])],
              [(''user_id'', PInt 2), (''timestamp'', PStr ''t2''), (''metadata'', PDict [])]], ReportProcessed 2 2, SleepCall WORKER_SLEEP]"
proof -
  let ?bad = "\<lparr>now = 2, replies = \<lparr>executemany_raises = None, commit_raises = None\<rparr>,
          fault = Some (AtStats, RuntimeError ''boom''), stop_called = False\<rparr>"
  let ?good = "\<lparr>now = 2, replies = \<lparr>executemany_raises = None, commit_raises = None\<rparr>,
          fault = None, stop_called = False\<rparr>"
  let ?s = "\<lparr>buffer = \<lparr>queue = \<lparr>items = [[(''user_id'', PInt 1), (''timestamp'', PStr ''t1''), (''metadata'', PDict [])],
              [(''user_id'', PInt 2), (''timestamp'', PStr ''t2''), (''metadata'', PDict [])]], maxlen = 5\<rparr>,
            total_received = 2, total_processed = 0, total_dropped = 0\<rparr>,
          database = \<lparr>pending = [], committed = []\<rparr>,
          worker = \<lparr>running = True, last_batch_time = 0\<rparr>\<rparr>"
  have r: "rows_of [[(''user_id'', PInt 1), (''timestamp'', PStr ''t1''), (''metadata'', PDict [])],
              [(''user_id'', PInt 2), (''timestamp'', PStr ''t2''), (''metadata'', PDict [])]] = Inr [(PInt 1, PStr ''t1'', PDict []), (PInt 2, PStr ''t2'', PDict [])]"
    by (simp add: row_of_def subscript_def json_dumps_def)
  have run: "running (worker ?s)" by simp
  have rb: "round_body ?bad ?s = (Inl (RuntimeError ''boom''), ?s, [])"
    by (simp add: round_body_def process_batch_def raises_at_def)
  have ns: "\<not> stop_called ?bad" by simp
  have nf: "fault ?good = None" by simp
  have sp: "should_process (deque_len (queue (buffer ?s))) (now ?good - last_batch_time (worker ?s))"
    by (simp add: should_process_def deque_len_def BATCH_SIZE_def BATCH_TIMEOUT_def)
  have tk: "take (nat BATCH_SIZE) (items (queue (buffer ?s))) = [[(''user_id'', PInt 1), (''timestamp'', PStr ''t1''), (''metadata'', PDict [])],
              [(''user_id'', PInt 2), (''timestamp'', PStr ''t2''), (''metadata'', PDict [])]]"
    by (simp add: BATCH_SIZE_def)
  have ws: "write_succeeds (replies ?good) (take (nat BATCH_SIZE) (items (queue (buffer ?s))))"
    unfolding tk by (simp add: write_succeeds_def r del: rows_of.simps)
  note t = worker_loop_survives [OF run rb, of "[?good]" ?good]
  have w: "worker_round ?bad ?s = (?s, [ReportWorkerError (RuntimeError ''boom''), SleepCall 1])"
    using conjunct1 [OF t] by simp
  have l: "\<not> fst (start_loop [?bad, ?good] ?s)"
    using conjunct1 [OF conjunct2 [OF conjunct2 [OF conjunct2 [OF t]]]] by simp
  have c: "\<not> stop_called ?bad \<and> fault ?good = None
            \<and> should_process (deque_len (queue (buffer ?s)))
                 (now ?good - last_batch_time (worker ?s))
            \<and> write_succeeds (replies ?good) (take (nat BATCH_SIZE) (items (queue (buffer ?s))))"
    by (rule conjI [OF ns conjI [OF nf conjI [OF sp ws]]])
  note f = mp [OF conjunct2 [OF conjunct2 [OF conjunct2 [OF conjunct2 [OF t]]]] c]
  have p: "total_processed (buffer (fst (snd (start_loop [?bad, ?good] ?s)))) = 2"
    using conjunct1 [OF f] unfolding tk by (simp add: deque_len_def)
  have q: "snd (snd (start_loop [?bad, ?good] ?s)) = [ReportWorkerError (RuntimeError ''boom''), SleepCall 1, GetBatchCall BATCH_SIZE, InsertBatchCall [[(''user_id'', PInt 1), (''timestamp'', PStr ''t1''), (''metadata'', PDict [])],
              [(''user_id'', PInt 2), (''timestamp'', PStr ''t2''), (''metadata'', PDict [])]], ReportProcessed 2 2, SleepCall WORKER_SLEEP]"
    using conjunct2 [OF f] unfolding tk by (simp add: deque_len_def)
  show ?thesis by (rule conjI [OF rb conjI [OF w conjI [OF l conjI [OF p q]]]])
qed







end
